theory Spec2Isabelle
  imports Complex_Main "HOL-Library.Multiset"
begin

section \<open>JavaScript values used by the scheduler and the dispatch engine\<close>

text \<open>
  Settings such as \<open>batchSize\<close> and \<open>intervalHours\<close> reach the services as the result
  of \<open>parseInt\<close>, which is an integer or \<open>NaN\<close>. Every comparison with \<open>NaN\<close> is false and
  every arithmetic operation on it yields \<open>NaN\<close>. Integers are kept exact, as JavaScript
  keeps them up to \<open>2^53\<close>; beyond that bound it rounds to the nearest double, and to
  \<open>Infinity\<close> beyond the range of the doubles.
\<close>

datatype jsnum = Num int | NaN

fun js_less :: "jsnum \<Rightarrow> jsnum \<Rightarrow> bool" where
  "js_less (Num a) (Num b) = (a < b)"
| "js_less _ _ = False"

fun js_greater :: "jsnum \<Rightarrow> jsnum \<Rightarrow> bool" where
  "js_greater (Num a) (Num b) = (a > b)"
| "js_greater _ _ = False"

fun js_plus :: "jsnum \<Rightarrow> jsnum \<Rightarrow> jsnum" where
  "js_plus (Num a) (Num b) = Num (a + b)"
| "js_plus _ _ = NaN"

fun js_minus :: "jsnum \<Rightarrow> jsnum \<Rightarrow> jsnum" where
  "js_minus (Num a) (Num b) = Num (a - b)"
| "js_minus _ _ = NaN"

fun js_times :: "jsnum \<Rightarrow> jsnum \<Rightarrow> jsnum" where
  "js_times (Num a) (Num b) = Num (a * b)"
| "js_times _ _ = NaN"

fun Math_max :: "jsnum \<Rightarrow> jsnum \<Rightarrow> jsnum" where
  "Math_max (Num a) (Num b) = Num (max a b)"
| "Math_max _ _ = NaN"

text \<open>
  \<open>Array.prototype.splice(0, n)\<close>: the delete count is \<open>ToIntegerOrInfinity(n)\<close> clamped
  to the range from 0 to the length of the array, so \<open>NaN\<close> and negative counts remove
  nothing. The result is the pair of the removed prefix and the array that remains.
\<close>

fun deleteCount :: "jsnum \<Rightarrow> nat" where
  "deleteCount (Num n) = nat n"
| "deleteCount NaN = 0"

definition splice0 :: "'a list \<Rightarrow> jsnum \<Rightarrow> 'a list \<times> 'a list" where
  "splice0 xs n = (take (deleteCount n) xs, drop (deleteCount n) xs)"

fun str_includes :: "string \<Rightarrow> string \<Rightarrow> bool" where
  "str_includes [] sub = (sub = [])"
| "str_includes (c # cs) sub = (take (length sub) (c # cs) = sub \<or> str_includes cs sub)"

definition startsWith :: "string \<Rightarrow> string \<Rightarrow> bool" where
  "startsWith s pre = (take (length pre) s = pre)"

section \<open>Dispatch engine (PaymentService)\<close>

subsection \<open>Data\<close>

text \<open>
  A client is a row of the \<open>clients\<close> table (\<open>msisdn\<close>, \<open>offer_code\<close>,
  \<open>subscription_status\<close>); the retry fields are absent (\<open>None\<close>, JavaScript's
  \<open>undefined\<close>) on a row fresh from the database and are added by the retry logic.
  The timestamps \<open>last_payment_date\<close> and \<open>lastAttempt\<close> are clock values that no
  decision of the engine reads; they are left out.
\<close>

record client =
  msisdn :: string
  offer_code :: string
  subscription_status :: string
  retryCount :: "nat option"
  lastError :: "string option"

datatype server = PRIMARY | FALLBACK

text \<open>The error object caught by \<open>processSinglePayment\<close>: \<open>error.code\<close>,
  \<open>error.message\<close> and \<open>error.response.status\<close>.\<close>

record jserror =
  err_code :: "string option"
  err_message :: string
  err_status :: "nat option"

text \<open>
  What the environment decides for one call of \<open>processSinglePayment\<close>: the outcome
  of \<open>Math.random() < serverDistribution\<close>, whether the awaited token fetch and HTTP
  post reject with an error or resolve with \<open>(statusCode, description)\<close>, and when the
  call settles relative to the other calls of its batch.
\<close>

record attempt =
  usePrimary :: bool
  reply :: "jserror + string \<times> string"
  latency :: nat

text \<open>The environment, indexed by batch index, position in the batch and client.\<close>

type_synonym upstream = "nat \<Rightarrow> nat \<Rightarrow> client \<Rightarrow> attempt"

record error_counts =
  timeout :: nat
  connection :: nat
  server_errors :: nat
  auth :: nat
  other :: nat

record statistics =
  totalRequests :: nat
  successful :: nat
  failed :: nat
  retried :: nat
  primaryServerRequests :: nat
  fallbackServerRequests :: nat
  primaryServerSuccess :: nat
  fallbackServerSuccess :: nat
  errors :: error_counts

text \<open>
  The snapshot returned by \<open>getStats\<close>: the counters and the derived
  \<open>permanentFailures\<close>. The fields \<open>duration\<close> and \<open>rate\<close> (clock readings) and the
  three success rates (floating-point percentages rounded by \<open>toFixed\<close>) are not
  modelled.
\<close>

record snapshot = statistics +
  permanentFailures :: int

record payment_service =
  stats :: statistics
  failedQueue :: "client list"

datatype payresult =
    success: Fulfilled (r_server: server) (r_statusCode: string) (r_description: string)
      (r_msisdn: string) (r_isRetry: bool)
  | Rejected (r_server: server) (r_error: string) (r_msisdn: string) (r_retryCount: nat)
      (r_willRetry: bool) (r_isRetry: bool)

text \<open>
  Events of the engine's emitter. The \<open>totalBatches\<close> estimates
  (\<open>Math.ceil\<close> of a floating-point quotient) are left out of the payloads.
\<close>

datatype event =
    ProcessingStarted (ev_jobId: string) (ev_totalClients: nat) (ev_batchSizeSetting: jsnum)
  | BatchStarted (ev_jobId: string) (ev_batchIndex: nat) (ev_batchLength: nat)
      (ev_retryCount: nat)
  | BatchCompleted (ev_jobId: string) (ev_batchIndex: nat) (ev_results: "payresult list")
      (ev_batchLength: nat) (ev_successfulInBatch: nat) (ev_failedInBatch: nat)
      (ev_retryCount: nat) (ev_queuedForRetry: nat)
  | ProcessingCompleted (ev_jobId: string) (ev_totalClients: nat)
      (ev_results: "payresult list") (ev_stats: snapshot)

subsection \<open>Statistics\<close>

definition maxRetries :: nat where
  "maxRetries = 3"

definition resetStats :: statistics where
  "resetStats = \<lparr>totalRequests = 0, successful = 0, failed = 0, retried = 0,
     primaryServerRequests = 0, fallbackServerRequests = 0, primaryServerSuccess = 0,
     fallbackServerSuccess = 0,
     errors = \<lparr>timeout = 0, connection = 0, server_errors = 0, auth = 0, other = 0\<rparr>\<rparr>"

definition getStats :: "statistics \<Rightarrow> snapshot" where
  "getStats st =
     (let permanent = int (failed st) - int (retried st) in
      \<lparr>totalRequests = totalRequests st, successful = successful st, failed = failed st,
       retried = retried st, primaryServerRequests = primaryServerRequests st,
       fallbackServerRequests = fallbackServerRequests st,
       primaryServerSuccess = primaryServerSuccess st,
       fallbackServerSuccess = fallbackServerSuccess st,
       errors = errors st,
       permanentFailures = (if permanent \<ge> 0 then permanent else 0)\<rparr>)"

subsection \<open>One payment\<close>

definition selectServer :: "bool \<Rightarrow> statistics \<Rightarrow> server \<times> statistics" where
  "selectServer primary st =
     (if primary then (PRIMARY, st\<lparr>primaryServerRequests := primaryServerRequests st + 1\<rparr>)
      else (FALLBACK, st\<lparr>fallbackServerRequests := fallbackServerRequests st + 1\<rparr>))"

definition countError :: "jserror \<Rightarrow> error_counts \<Rightarrow> error_counts" where
  "countError e ec =
     (if err_code e = Some ''ECONNABORTED'' \<or> str_includes (err_message e) ''timeout''
        then ec\<lparr>timeout := timeout ec + 1\<rparr>
      else if (case err_code e of None \<Rightarrow> False | Some c \<Rightarrow> c \<noteq> [] \<and> startsWith c ''ECONN'')
        then ec\<lparr>connection := connection ec + 1\<rparr>
      else if (case err_status e of None \<Rightarrow> False | Some s \<Rightarrow> s \<ge> 500)
        then ec\<lparr>server_errors := server_errors ec + 1\<rparr>
      else if err_status e = Some 401
        then ec\<lparr>auth := auth ec + 1\<rparr>
      else ec\<lparr>other := other ec + 1\<rparr>)"

text \<open>\<open>client.retryCount || 0\<close> and \<open>client.retryCount > 0\<close>.\<close>

definition retryCountOr0 :: "client \<Rightarrow> nat" where
  "retryCountOr0 c = (case retryCount c of None \<Rightarrow> 0 | Some n \<Rightarrow> n)"

definition isRetryOf :: "client \<Rightarrow> bool" where
  "isRetryOf c = (case retryCount c of None \<Rightarrow> False | Some n \<Rightarrow> n > 0)"

text \<open>The object returned by \<open>processSinglePayment\<close>; it does not depend on the
  service's state.\<close>

definition paymentResult :: "client \<Rightarrow> bool \<Rightarrow> server \<Rightarrow> jserror + string \<times> string \<Rightarrow> payresult" where
  "paymentResult c isRetry srv rp =
     (case rp of
        Inr (statusCode, description) \<Rightarrow> Fulfilled srv statusCode description (msisdn c) isRetry
      | Inl e \<Rightarrow> Rejected srv (err_message e) (msisdn c) (retryCountOr0 c)
                 (retryCountOr0 c < maxRetries) isRetry)"

text \<open>
  The continuation of \<open>processSinglePayment\<close> after its awaited request has settled:
  the \<open>try\<close> branch on success, the \<open>catch\<close> branch on an error. It runs without
  further suspension.
\<close>

definition settlePayment ::
    "client \<Rightarrow> bool \<Rightarrow> server \<Rightarrow> jserror + string \<times> string \<Rightarrow> payment_service \<Rightarrow> payment_service" where
  "settlePayment c isRetry srv rp svc =
     (case rp of
        Inr _ \<Rightarrow>
          (let st1 = (stats svc)\<lparr>totalRequests := totalRequests (stats svc) + 1,
                                 successful := successful (stats svc) + 1\<rparr>;
               st2 = (if isRetry then st1\<lparr>retried := retried st1 + 1\<rparr> else st1);
               st3 = (if srv = PRIMARY
                      then st2\<lparr>primaryServerSuccess := primaryServerSuccess st2 + 1\<rparr>
                      else st2\<lparr>fallbackServerSuccess := fallbackServerSuccess st2 + 1\<rparr>)
           in svc\<lparr>stats := st3\<rparr>)
      | Inl e \<Rightarrow>
          (let st1 = (stats svc)\<lparr>totalRequests := totalRequests (stats svc) + 1,
                                 failed := failed (stats svc) + 1,
                                 errors := countError e (errors (stats svc))\<rparr>;
               rc = retryCountOr0 c;
               fq = (if rc < maxRetries
                     then failedQueue svc @
                          [c\<lparr>retryCount := Some (rc + 1), lastError := Some (err_message e)\<rparr>]
                     else failedQueue svc)
           in svc\<lparr>stats := st1, failedQueue := fq\<rparr>))"

text \<open>A call of \<open>processSinglePayment\<close> run on its own, from start to return.\<close>

definition processSinglePayment ::
    "client \<Rightarrow> bool \<Rightarrow> attempt \<Rightarrow> payment_service \<Rightarrow> payresult \<times> payment_service" where
  "processSinglePayment c isRetry att svc =
     (let (srv, st) = selectServer (usePrimary att) (stats svc)
      in (paymentResult c isRetry srv (reply att),
          settlePayment c isRetry srv (reply att) (svc\<lparr>stats := st\<rparr>)))"

subsection \<open>One batch\<close>

text \<open>
  The three lines of \<open>processClients\<close> that cut the next batch: the primary queue is
  spliced first, for \<open>Math.max(1, batchSize - failedQueue.length)\<close> items, then the retry
  queue for \<open>batchSize - regularBatch.length\<close> items. The result is
  \<open>(regularBatch, retryBatch, allClients, failedQueue)\<close> after both splices.
\<close>

definition takeBatch ::
    "jsnum \<Rightarrow> client list \<Rightarrow> client list \<Rightarrow> client list \<times> client list \<times> client list \<times> client list" where
  "takeBatch batchSize allClients fq =
     (let (regularBatch, rest) =
            splice0 allClients (Math_max (Num 1) (js_minus batchSize (Num (int (length fq)))));
          (retryBatch, fqRest) =
            splice0 fq (js_minus batchSize (Num (int (length regularBatch))))
      in (regularBatch, retryBatch, rest, fqRest))"

text \<open>
  \<open>processBatchParallel\<close>. \<open>batch.map\<close> starts every call in batch order; each call
  runs synchronously up to its first \<open>await\<close>, which is past \<open>selectServer\<close>
  (\<open>launch\<close>). The continuations then run one at a time in the order in which the
  requests settle (\<open>sort_key\<close> on the latency, ties in batch order), and
  \<open>Promise.allSettled\<close> hands the results back in batch order. No call rejects, as
  \<open>processSinglePayment\<close> catches the errors of its requests, so the \<open>UNKNOWN\<close> branch
  of the result mapping is never taken.
\<close>

definition startCalls :: "(nat \<Rightarrow> client \<Rightarrow> attempt) \<Rightarrow> client list \<Rightarrow> (client \<times> attempt) list" where
  "startCalls up batch = map (\<lambda>(i, c). (c, up i c)) (enumerate 0 batch)"

fun launch :: "(client \<times> attempt) list \<Rightarrow> statistics \<Rightarrow> (client \<times> server \<times> attempt) list \<times> statistics" where
  "launch [] st = ([], st)"
| "launch ((c, a) # cs) st =
     (let (srv, st1) = selectServer (usePrimary a) st;
          (pending, st2) = launch cs st1
      in ((c, srv, a) # pending, st2))"

definition settleCall :: "client \<times> server \<times> attempt \<Rightarrow> payment_service \<Rightarrow> payment_service" where
  "settleCall = (\<lambda>(c, srv, a). settlePayment c (isRetryOf c) srv (reply a))"

definition resultOfCall :: "client \<times> server \<times> attempt \<Rightarrow> payresult" where
  "resultOfCall = (\<lambda>(c, srv, a). paymentResult c (isRetryOf c) srv (reply a))"

definition processBatchParallel ::
    "(nat \<Rightarrow> client \<Rightarrow> attempt) \<Rightarrow> client list \<Rightarrow> payment_service \<Rightarrow> payresult list \<times> payment_service" where
  "processBatchParallel up batch svc =
     (let (pending, st) = launch (startCalls up batch) (stats svc);
          settled = fold settleCall (sort_key (\<lambda>(c, srv, a). latency a) pending) (svc\<lparr>stats := st\<rparr>)
      in (map resultOfCall pending, settled))"

subsection \<open>The batch loop\<close>

text \<open>
  The state of one run of \<open>processClients\<close>. Listeners run synchronously inside
  \<open>emit\<close> and may read the statistics (the scheduler's listener calls \<open>getStats\<close>), so
  every emitted event is recorded with the statistics at that instant.
\<close>

record run_state =
  allClients :: "client list"
  service :: payment_service
  results :: "payresult list"
  batchIndex :: nat
  emitted :: "(event \<times> statistics) list"

text \<open>One iteration of the \<open>while\<close> loop; \<open>None\<close> when the loop is left, by its
  condition or by the \<open>break\<close> on an empty batch.\<close>

definition batchStep :: "upstream \<Rightarrow> jsnum \<Rightarrow> string \<Rightarrow> run_state \<Rightarrow> run_state option" where
  "batchStep up batchSize jobId rs =
     (if allClients rs \<noteq> [] \<or> failedQueue (service rs) \<noteq> [] then
        (let idx = batchIndex rs + 1;
             (regularBatch, retryBatch, rest, fqRest) =
               takeBatch batchSize (allClients rs) (failedQueue (service rs));
             currentBatch = regularBatch @ retryBatch
         in if currentBatch = [] then None
            else
              (let svc1 = (service rs)\<lparr>failedQueue := fqRest\<rparr>;
                   started = (BatchStarted jobId idx (length currentBatch) (length retryBatch),
                              stats svc1);
                   (batchResults, svc2) = processBatchParallel (up idx) currentBatch svc1;
                   completed =
                     (BatchCompleted jobId idx batchResults (length currentBatch)
                        (length (filter success batchResults))
                        (length (filter (\<lambda>r. \<not> success r) batchResults))
                        (length retryBatch) (length (failedQueue svc2)),
                      stats svc2)
               in Some \<lparr>allClients = rest, service = svc2,
                         results = results rs @ batchResults, batchIndex = idx,
                         emitted = emitted rs @ [started, completed]\<rparr>))
      else None)"

text \<open>The work left in the two queues: every queued item counts one for its next
  attempt and one for each retry it may still be granted.\<close>

definition weight :: "client \<Rightarrow> nat" where
  "weight c = Suc (maxRetries - retryCountOr0 c)"

definition work :: "run_state \<Rightarrow> nat" where
  "work rs = sum_list (map weight (allClients rs)) + sum_list (map weight (failedQueue (service rs)))"

text \<open>What a settled call appends to the retry queue.\<close>

definition requeueOf :: "client \<times> server \<times> attempt \<Rightarrow> client list" where
  "requeueOf = (\<lambda>(c, srv, a).
     (case reply a of
        Inr _ \<Rightarrow> []
      | Inl e \<Rightarrow> (if retryCountOr0 c < maxRetries
                  then [c\<lparr>retryCount := Some (retryCountOr0 c + 1), lastError := Some (err_message e)\<rparr>]
                  else [])))"

subsection \<open>Facts about one batch\<close>


lemma sum_list_sort_key: "sum_list (map f (sort_key k xs)) = sum_list (map (f::'a \<Rightarrow> nat) xs)"
proof -
  have "mset (map f (sort_key k xs)) = mset (map f xs)" by simp
  then show ?thesis by (metis sum_mset_sum_list)
qed


lemma launch_pending:
  "fst (launch cs st) = map (\<lambda>(c, a). (c, (if usePrimary a then PRIMARY else FALLBACK), a)) cs"
  by (induction cs arbitrary: st) (auto simp: selectServer_def case_prod_beta Let_def)


lemma settleCall_queue: "failedQueue (settleCall call svc) = failedQueue svc @ requeueOf call"
  by (cases call) (auto simp: settleCall_def settlePayment_def requeueOf_def Let_def split: sum.splits)

lemma fold_settle_queue:
  "failedQueue (fold settleCall cs svc) = failedQueue svc @ concat (map requeueOf cs)"
  by (induction cs arbitrary: svc) (simp_all add: settleCall_queue)



lemma requeue_weight: "sum_list (map weight (requeueOf call)) < weight (fst call)"
  by (cases call) (auto simp: requeueOf_def weight_def retryCountOr0_def maxRetries_def split: sum.splits)

lemma requeued_weight:
  "sum_list (map weight (concat (map requeueOf cs))) + length cs \<le> sum_list (map (\<lambda>x. weight (fst x)) cs)"
proof (induction cs)
  case Nil then show ?case by simp
next
  case (Cons x xs)
  have "sum_list (map weight (requeueOf x)) + 1 \<le> weight (fst x)"
    using requeue_weight[of x] by simp
  with Cons show ?case by simp
qed

text \<open>The calls of a batch in batch order, each with the server chosen for it, and
  the same calls in the order in which they settle.\<close>

definition callsOf :: "(nat \<Rightarrow> client \<Rightarrow> attempt) \<Rightarrow> client list \<Rightarrow> (client \<times> server \<times> attempt) list" where
  "callsOf up batch =
     map (\<lambda>(c, a). (c, (if usePrimary a then PRIMARY else FALLBACK), a)) (startCalls up batch)"

definition settleOrder :: "(nat \<Rightarrow> client \<Rightarrow> attempt) \<Rightarrow> client list \<Rightarrow> (client \<times> server \<times> attempt) list" where
  "settleOrder up batch = sort_key (\<lambda>(c, srv, a). latency a) (callsOf up batch)"

lemma map_fst_callsOf: "map fst (callsOf up batch) = batch"
proof -
  have "map fst (callsOf up batch) = map snd (enumerate 0 batch)"
    by (simp add: callsOf_def startCalls_def case_prod_beta comp_def)
  then show ?thesis by simp
qed

lemma length_callsOf: "length (callsOf up batch) = length batch"
  by (metis length_map map_fst_callsOf)

lemma mset_settleOrder: "mset (settleOrder up batch) = mset (callsOf up batch)"
  by (simp add: settleOrder_def)

lemma processBatchParallel_eq:
  "processBatchParallel up batch svc =
     (map resultOfCall (callsOf up batch),
      fold settleCall (settleOrder up batch)
        (svc\<lparr>stats := snd (launch (startCalls up batch) (stats svc))\<rparr>))"
  using launch_pending[of "startCalls up batch" "stats svc"]
  by (simp add: processBatchParallel_def settleOrder_def callsOf_def case_prod_beta)

text \<open>A batch of one client is one call of \<open>processSinglePayment\<close>.\<close>

lemma processBatchParallel_single:
  "processBatchParallel up [c] svc =
     ([fst (processSinglePayment c (isRetryOf c) (up 0 c) svc)],
      snd (processSinglePayment c (isRetryOf c) (up 0 c) svc))"
  by (simp add: processBatchParallel_def startCalls_def processSinglePayment_def settleCall_def
      resultOfCall_def case_prod_beta Let_def)

lemma processBatchParallel_queue:
  "failedQueue (snd (processBatchParallel up batch svc)) =
     failedQueue svc @ concat (map requeueOf (settleOrder up batch))"
  by (simp add: processBatchParallel_eq fold_settle_queue)


lemma takeBatch_split:
  assumes "takeBatch bs ac fq = (regular, retry, rest, fqRest)"
  shows "ac = regular @ rest" and "fq = retry @ fqRest"
  using assms by (auto simp: takeBatch_def splice0_def Let_def)

lemma batchStep_Some:
  assumes "batchStep up bs j rs = Some rs'"
  shows "\<exists>regular retry fqRest.
           takeBatch bs (allClients rs) (failedQueue (service rs)) = (regular, retry, allClients rs', fqRest) \<and>
           regular @ retry \<noteq> [] \<and>
           service rs' = snd (processBatchParallel (up (batchIndex rs + 1)) (regular @ retry)
                                ((service rs)\<lparr>failedQueue := fqRest\<rparr>)) \<and>
           results rs' = results rs @ map resultOfCall (callsOf (up (batchIndex rs + 1)) (regular @ retry)) \<and>
           batchIndex rs' = batchIndex rs + 1 \<and>
           emitted rs' = emitted rs @
             [(BatchStarted j (batchIndex rs + 1) (length (regular @ retry)) (length retry), stats (service rs)),
              (BatchCompleted j (batchIndex rs + 1)
                 (map resultOfCall (callsOf (up (batchIndex rs + 1)) (regular @ retry)))
                 (length (regular @ retry))
                 (length (filter success (map resultOfCall (callsOf (up (batchIndex rs + 1)) (regular @ retry)))))
                 (length (filter (\<lambda>r. \<not> success r) (map resultOfCall (callsOf (up (batchIndex rs + 1)) (regular @ retry)))))
                 (length retry) (length (failedQueue (service rs'))),
               stats (service rs'))]"
  using assms
  by (auto simp: batchStep_def Let_def processBatchParallel_eq split: if_splits prod.splits)

lemma batchStep_work:
  assumes "batchStep up bs j rs = Some rs'"
  shows "work rs' < work rs"
proof -
  from batchStep_Some[OF assms] obtain regular retry fqRest where
    tb: "takeBatch bs (allClients rs) (failedQueue (service rs)) = (regular, retry, allClients rs', fqRest)"
    and ne: "regular @ retry \<noteq> []"
    and svc: "service rs' = snd (processBatchParallel (up (batchIndex rs + 1)) (regular @ retry)
                                ((service rs)\<lparr>failedQueue := fqRest\<rparr>))"
    by blast
  let ?u = "up (batchIndex rs + 1)"
  let ?b = "regular @ retry"
  have q: "failedQueue (service rs') = fqRest @ concat (map requeueOf (settleOrder ?u ?b))"
    by (simp add: svc processBatchParallel_queue)
  have "sum_list (map weight (concat (map requeueOf (settleOrder ?u ?b)))) + length (settleOrder ?u ?b)
          \<le> sum_list (map (\<lambda>x. weight (fst x)) (settleOrder ?u ?b))"
    by (rule requeued_weight)
  moreover have "sum_list (map (\<lambda>x. weight (fst x)) (settleOrder ?u ?b)) = sum_list (map weight ?b)"
  proof -
    have "sum_list (map (\<lambda>x. weight (fst x)) (settleOrder ?u ?b)) = sum_list (map (\<lambda>x. weight (fst x)) (callsOf ?u ?b))"
      by (simp add: settleOrder_def sum_list_sort_key)
    also have "\<dots> = sum_list (map weight (map fst (callsOf ?u ?b)))"
      by (simp add: comp_def)
    finally show ?thesis by (simp only: map_fst_callsOf)
  qed
  moreover have "length (settleOrder ?u ?b) > 0"
    using ne by (simp add: settleOrder_def length_callsOf)
  ultimately have lt: "sum_list (map weight (concat (map requeueOf (settleOrder ?u ?b)))) < sum_list (map weight ?b)"
    by linarith
  have "allClients rs = regular @ allClients rs'" "failedQueue (service rs) = retry @ fqRest"
    using takeBatch_split[OF tb] by auto
  then show ?thesis
    using lt q by (simp add: work_def)
qed

text \<open>
  The \<open>while\<close> loop of \<open>processClients\<close>. It terminates for every batch size and
  every environment: a batch that is dispatched is not empty, and what it puts back on
  the retry queue weighs less than what it took.
\<close>

function processLoop :: "upstream \<Rightarrow> jsnum \<Rightarrow> string \<Rightarrow> run_state \<Rightarrow> run_state" where
  "processLoop up batchSize jobId rs =
     (case batchStep up batchSize jobId rs of
        None \<Rightarrow> rs
      | Some rs' \<Rightarrow> processLoop up batchSize jobId rs')"
  by pat_completeness auto
termination
  by (relation "measure (\<lambda>(up, batchSize, jobId, rs). work rs)") (auto dest: batchStep_work)

declare processLoop.simps [simp del]





text \<open>
  \<open>processClients\<close>: the statistics and the retry queue are reset, the loop runs, and
  \<open>processingCompleted\<close> carries the results and the final snapshot. The value is the
  returned results, the events emitted and the service's state afterwards.
\<close>

definition processClients ::
    "upstream \<Rightarrow> client list \<Rightarrow> jsnum \<Rightarrow> string \<Rightarrow> payment_service \<Rightarrow>
       payresult list \<times> (event \<times> statistics) list \<times> payment_service" where
  "processClients up clients batchSize jobId svc =
     (let svc0 = svc\<lparr>stats := resetStats, failedQueue := []\<rparr>;
          rs0 = \<lparr>allClients = clients, service = svc0, results = [], batchIndex = 0,
                 emitted = [(ProcessingStarted jobId (length clients) batchSize, stats svc0)]\<rparr>;
          rs = processLoop up batchSize jobId rs0;
          finalStats = getStats (stats (service rs))
      in (results rs,
          emitted rs @
            [(ProcessingCompleted jobId (length clients) (results rs) finalStats,
              stats (service rs))],
          service rs))"

section \<open>Job scheduler (SchedulerService)\<close>

subsection \<open>Data\<close>

record settings =
  intervalHours :: jsnum
  batchSize :: jsnum
  includeInactive :: bool
  enabled :: bool

text \<open>A partial settings object, as the controller and the job runners pass it; an absent
  key leaves the current value in place under the object spread.\<close>

record settings_update =
  new_intervalHours :: "jsnum option"
  new_batchSize :: "jsnum option"
  new_includeInactive :: "bool option"
  new_enabled :: "bool option"

definition mergeSettings :: "settings \<Rightarrow> settings_update \<Rightarrow> settings" where
  "mergeSettings cur upd =
     \<lparr>intervalHours = (case new_intervalHours upd of None \<Rightarrow> intervalHours cur | Some v \<Rightarrow> v),
      batchSize = (case new_batchSize upd of None \<Rightarrow> batchSize cur | Some v \<Rightarrow> v),
      includeInactive = (case new_includeInactive upd of None \<Rightarrow> includeInactive cur | Some v \<Rightarrow> v),
      enabled = (case new_enabled upd of None \<Rightarrow> enabled cur | Some v \<Rightarrow> v)\<rparr>"

definition asUpdate :: "settings \<Rightarrow> settings_update" where
  "asUpdate st = \<lparr>new_intervalHours = Some (intervalHours st), new_batchSize = Some (batchSize st),
                   new_includeInactive = Some (includeInactive st), new_enabled = Some (enabled st)\<rparr>"

text \<open>
  A \<open>Date\<close> read in local time: a day number and the wall-clock fields. \<open>setHours\<close>
  carries hours beyond the day into the day number. Shifts of the local clock
  (daylight saving) are not modelled. A date built from \<open>NaN\<close> is the invalid date.
\<close>

record date =
  d_day :: int
  d_hour :: int
  d_minute :: int
  d_second :: int
  d_ms :: int

datatype jsdate = Valid date | InvalidDate

fun getHours :: "jsdate \<Rightarrow> jsnum" where
  "getHours (Valid d) = Num (d_hour d)"
| "getHours InvalidDate = NaN"

text \<open>\<open>setHours(h)\<close> and \<open>setHours(h, 0, 0, 0)\<close>.\<close>

fun setHours :: "jsdate \<Rightarrow> jsnum \<Rightarrow> jsdate" where
  "setHours (Valid d) (Num h) = Valid (d\<lparr>d_day := d_day d + h div 24, d_hour := h mod 24\<rparr>)"
| "setHours _ _ = InvalidDate"

fun setHours0 :: "jsdate \<Rightarrow> jsnum \<Rightarrow> jsdate" where
  "setHours0 (Valid d) (Num h) =
     Valid (d\<lparr>d_day := d_day d + h div 24, d_hour := h mod 24, d_minute := 0, d_second := 0,
              d_ms := 0\<rparr>)"
| "setHours0 _ _ = InvalidDate"

datatype job_status = Pending | Running | Completed | Failed

record job =
  jobId :: string
  status :: job_status
  totalClients :: nat
  isScheduled :: bool
  job_error :: "string option"

text \<open>The scheduler object. The armed cron task is kept as the hours of its expression
  \<open>0 h1,h2,... * * *\<close>; \<open>runningJobs\<close> is the \<open>Map\<close> in insertion order.\<close>

record scheduler =
  scheduledTask :: "int list option"
  currentJob :: "job option"
  runningJobs :: "(string \<times> job) list"
  settings :: settings

datatype sched_event =
    JobSkipped string
  | JobStarted string nat jsnum bool bool
  | BatchCompletedForwarded event bool
  | JobCompleted string nat "payresult list" snapshot bool
  | JobFailed string string bool
  | SchedulerStarted "int list" jsnum jsnum bool "jsdate option" "jsdate list"
  | SchedulerStopped
  | SettingsUpdated settings

text \<open>Writes to the \<open>processing_jobs\<close> table, in the order they are issued.\<close>

datatype job_write =
    CreateJob string nat jsnum bool
  | MarkRunning string
  | Progress string jsnum nat nat
  | MarkCompleted string nat nat nat snapshot
  | MarkFailed string string

text \<open>
  The scheduler together with what it acts on: the payment service, the database (the
  error every query rejects with while it is unreachable, the \<open>scheduler_state\<close> row as
  last saved, the writes to the job table, the rows \<open>getClients\<close> selects for either
  value of \<open>includeInactive\<close>), the events emitted by the scheduler and by the
  engine, and whether the heap of the process holds an array of the greatest length an
  array can have.

  Every asynchronous call is run to completion where it is made, also where the source
  does not await it; within one operation the database is reachable throughout or not at
  all. The \<open>scheduler_state\<close> row holds the values handed to \<open>saveSchedulerState\<close>;
  how the database coerces them into its columns lies outside the repository.
\<close>

record world =
  sched :: scheduler
  payment :: payment_service
  dbFailure :: "string option"
  schedulerState :: "settings option"
  jobWrites :: "job_write list"
  clientRows :: "bool \<Rightarrow> client list"
  schedEvents :: "sched_event list"
  engineEvents :: "(event \<times> statistics) list"
  heapSuffices :: bool

text \<open>How a call ends: it returns a value, it throws an error with a message, or the
  process is aborted while it runs. The state reached is kept in the first two cases.\<close>

datatype 'a outcome = Returns 'a world | Throws string world | Aborts

subsection \<open>The database service\<close>

definition saveSchedulerState :: "settings \<Rightarrow> world \<Rightarrow> unit outcome" where
  "saveSchedulerState st w =
     (case dbFailure w of
        Some e \<Rightarrow> Throws e w
      | None \<Rightarrow> Returns () (w\<lparr>schedulerState := Some st\<rparr>))"

text \<open>\<open>getSchedulerState\<close> catches its errors and returns \<open>null\<close>.\<close>

definition getSchedulerState :: "world \<Rightarrow> settings option" where
  "getSchedulerState w = (case dbFailure w of Some e \<Rightarrow> None | None \<Rightarrow> schedulerState w)"

definition testConnection :: "world \<Rightarrow> bool" where
  "testConnection w = (dbFailure w = None)"

definition getClients :: "bool \<Rightarrow> world \<Rightarrow> string + client list" where
  "getClients inactive w =
     (case dbFailure w of Some e \<Rightarrow> Inl e | None \<Rightarrow> Inr (clientRows w inactive))"

text \<open>A write to the job table whose rejection the caller only logs.\<close>

definition writeJob :: "job_write \<Rightarrow> world \<Rightarrow> world" where
  "writeJob jw w = (case dbFailure w of Some e \<Rightarrow> w | None \<Rightarrow> w\<lparr>jobWrites := jobWrites w @ [jw]\<rparr>)"

definition emitS :: "sched_event \<Rightarrow> world \<Rightarrow> world" where
  "emitS e w = w\<lparr>schedEvents := schedEvents w @ [e]\<rparr>"

subsection \<open>Schedule times\<close>

text \<open>
  The loop of \<open>generateCronExpression\<close> and \<open>getScheduleTimes\<close>,
  \<open>for (let hour = 0; hour < 24; hour += intervalHours) times.push(hour)\<close>. With \<open>NaN\<close>
  it ends after the first hour. With an interval of zero or less its condition stays true
  and the array grows with every round, until the \<open>push\<close> onto an array of \<open>2^32 - 1\<close>
  elements throws \<open>RangeError: Invalid array length\<close>.
\<close>

definition maxArrayLength :: nat where
  "maxArrayLength = 2 ^ 32 - 1"

function scheduleLoop :: "jsnum \<Rightarrow> jsnum \<Rightarrow> int list \<Rightarrow> string + int list" where
  "scheduleLoop hour interval acc =
     (case hour of
        Num h \<Rightarrow> (if h < 24
                  then (if length acc < maxArrayLength
                        then scheduleLoop (js_plus hour interval) interval (acc @ [h])
                        else Inl ''Invalid array length'')
                  else Inr acc)
      | NaN \<Rightarrow> Inr acc)"
  by pat_completeness auto
termination
  by (relation "measure (\<lambda>(hour, interval, acc). maxArrayLength - length acc)") auto

declare scheduleLoop.simps [simp del]

text \<open>
  A process whose heap does not hold an array of that length is aborted by the engine
  while the array grows, before the error is thrown; nothing is observed of the loop
  before either end. The loop ends in one of three ways.
\<close>

datatype 'a completion = Normal 'a | Thrown string | Aborted

definition getScheduleTimes :: "bool \<Rightarrow> jsnum \<Rightarrow> int list completion" where
  "getScheduleTimes heap interval =
     (case scheduleLoop (Num 0) interval [] of
        Inr acc \<Rightarrow> Normal acc
      | Inl e \<Rightarrow> (if heap then Thrown e else Aborted))"

text \<open>\<open>getNextRunTime\<close>, at the time \<open>now\<close> of the call: \<open>Some None\<close> is the returned
  \<open>null\<close>, also returned when the error of the loop is caught; \<open>None\<close> is a call during
  which the process is aborted.\<close>

definition getNextRunTime :: "date \<Rightarrow> world \<Rightarrow> jsdate option option" where
  "getNextRunTime now w =
     (if \<not> enabled (settings (sched w)) \<or> scheduledTask (sched w) = None then Some None
      else
        (case getScheduleTimes (heapSuffices w) (intervalHours (settings (sched w))) of
           Aborted \<Rightarrow> None
         | Thrown e \<Rightarrow> Some None
         | Normal scheduleTimes \<Rightarrow>
             (case find (\<lambda>hour. hour > d_hour now \<or> (hour = d_hour now \<and> d_minute now = 0))
                     scheduleTimes of
                Some hour \<Rightarrow> Some (Some (setHours0 (Valid now) (Num hour)))
              | None \<Rightarrow>
                  Some (Some (setHours0 (Valid (now\<lparr>d_day := d_day now + 1\<rparr>))
                          (case scheduleTimes of [] \<Rightarrow> NaN | h # _ \<Rightarrow> Num h))))))"

text \<open>The loop of \<open>getNextRunTimes\<close>: each further entry is the previous one with
  \<open>intervalHours\<close> added to its hour.\<close>

fun upcoming :: "nat \<Rightarrow> jsnum \<Rightarrow> jsdate \<Rightarrow> jsdate list" where
  "upcoming 0 interval prev = []"
| "upcoming (Suc n) interval prev =
     (let nextRun = setHours prev (js_plus (getHours prev) interval)
      in nextRun # upcoming n interval nextRun)"

definition getNextRunTimes :: "date \<Rightarrow> nat \<Rightarrow> world \<Rightarrow> jsdate list option" where
  "getNextRunTimes now n w =
     (if \<not> enabled (settings (sched w)) \<or> scheduledTask (sched w) = None then Some []
      else
        (case getNextRunTime now w of
           None \<Rightarrow> None
         | Some None \<Rightarrow> Some []
         | Some (Some firstRun) \<Rightarrow>
             Some (firstRun # upcoming (n - 1) (intervalHours (settings (sched w))) firstRun)))"

subsection \<open>Starting and stopping the timer\<close>

definition stopScheduler :: "bool \<Rightarrow> world \<Rightarrow> world" where
  "stopScheduler updateDatabase w =
     (let s = sched w;
          w1 = w\<lparr>sched := s\<lparr>scheduledTask := None, settings := (settings s)\<lparr>enabled := False\<rparr>\<rparr>\<rparr>;
          w2 = (if updateDatabase
                then (case saveSchedulerState (settings (sched w1)) w1 of
                        Returns _ w' \<Rightarrow> w' | Throws _ w' \<Rightarrow> w' | Aborts \<Rightarrow> w1)
                else w1)
      in emitS SchedulerStopped w2)"

text \<open>
  \<open>startScheduler\<close>: the settings are merged with \<open>enabled: true\<close> and saved, the old
  task is stopped without a database update (which resets the in-memory \<open>enabled\<close>
  flag), and the new task is armed with the hours of the cron expression. An error of
  the loop that builds the expression is thrown on to the caller. The value is
  \<open>(nextRun, upcomingSchedules)\<close>.
\<close>

definition startScheduler ::
    "date \<Rightarrow> settings_update \<Rightarrow> world \<Rightarrow> (jsdate option \<times> jsdate list) outcome" where
  "startScheduler now upd w =
     (let w1 = w\<lparr>sched := (sched w)\<lparr>settings :=
                   (mergeSettings (settings (sched w)) upd)\<lparr>enabled := True\<rparr>\<rparr>\<rparr>
      in case saveSchedulerState (settings (sched w1)) w1 of
           Throws e w' \<Rightarrow> Throws e w'
         | Aborts \<Rightarrow> Aborts
         | Returns _ w2 \<Rightarrow>
             (let w3 = stopScheduler False w2
              in case getScheduleTimes (heapSuffices w3) (intervalHours (settings (sched w3))) of
                   Aborted \<Rightarrow> Aborts
                 | Thrown e \<Rightarrow> Throws e w3
                 | Normal hours \<Rightarrow>
                     (let w4 = w3\<lparr>sched := (sched w3)\<lparr>scheduledTask := Some hours\<rparr>\<rparr>
                      in case getNextRunTime now w4 of
                           None \<Rightarrow> Aborts
                         | Some nextRun \<Rightarrow>
                             (case getNextRunTimes now 5 w4 of
                                None \<Rightarrow> Aborts
                              | Some upcomingSchedules \<Rightarrow>
                                  Returns (nextRun, upcomingSchedules)
                                    (emitS (SchedulerStarted hours
                                              (intervalHours (settings (sched w4)))
                                              (batchSize (settings (sched w4)))
                                              (includeInactive (settings (sched w4)))
                                              nextRun upcomingSchedules) w4)))))"

record status_report =
  st_enabled :: bool
  st_isRunning :: bool
  st_settings :: settings
  st_currentJob :: "job option"
  st_runningJobs :: "job list"
  st_nextRun :: "jsdate option"
  st_upcomingSchedules :: "jsdate list"

text \<open>\<open>getStatus\<close> overwrites the in-memory \<open>enabled\<close> flag with the persisted one when
  a row can be read.\<close>

definition getStatus :: "date \<Rightarrow> world \<Rightarrow> status_report outcome" where
  "getStatus now w =
     (let actualEnabled = (case getSchedulerState w of
                             None \<Rightarrow> enabled (settings (sched w))
                           | Some dbState \<Rightarrow> enabled dbState);
          w1 = w\<lparr>sched := (sched w)\<lparr>settings := (settings (sched w))\<lparr>enabled := actualEnabled\<rparr>\<rparr>\<rparr>
      in case getNextRunTime now w1 of
           None \<Rightarrow> Aborts
         | Some nextRun \<Rightarrow>
             (case getNextRunTimes now 5 w1 of
                None \<Rightarrow> Aborts
              | Some upcomingSchedules \<Rightarrow>
                  Returns \<lparr>st_enabled = actualEnabled,
                           st_isRunning = (scheduledTask (sched w1) \<noteq> None),
                           st_settings = settings (sched w1),
                           st_currentJob = currentJob (sched w1),
                           st_runningJobs = map snd (runningJobs (sched w1)),
                           st_nextRun = nextRun,
                           st_upcomingSchedules = upcomingSchedules\<rparr> w1))"

text \<open>\<open>updateSettings\<close>: merge, save (a failure is only logged), emit
  \<open>settingsUpdated\<close>, and restart the timer when the scheduler was and stays enabled (a
  failure of the restart is only logged).\<close>

definition updateSettings :: "date \<Rightarrow> settings_update \<Rightarrow> world \<Rightarrow> unit outcome" where
  "updateSettings now newSettings w =
     (let wasEnabled = enabled (settings (sched w));
          w1 = w\<lparr>sched := (sched w)\<lparr>settings := mergeSettings (settings (sched w)) newSettings\<rparr>\<rparr>;
          w2 = (case saveSchedulerState (settings (sched w1)) w1 of
                  Returns _ w' \<Rightarrow> w' | Throws _ w' \<Rightarrow> w' | Aborts \<Rightarrow> w1);
          w3 = emitS (SettingsUpdated (settings (sched w2))) w2
      in if wasEnabled \<and> enabled (settings (sched w3))
         then (case startScheduler now (asUpdate (settings (sched w3))) w3 of
                 Aborts \<Rightarrow> Aborts
               | Throws _ w4 \<Rightarrow> Returns () w4
               | Returns _ w4 \<Rightarrow> Returns () w4)
         else Returns () w3)"

subsection \<open>Running a job\<close>

datatype job_result = JobOk string snapshot | JobError string

text \<open>The listener both job runners register on the engine's \<open>batchCompleted\<close>.\<close>

definition onBatchCompleted :: "string \<Rightarrow> jsnum \<Rightarrow> bool \<Rightarrow> event \<times> statistics \<Rightarrow> world \<Rightarrow> world" where
  "onBatchCompleted jid bsize scheduled = (\<lambda>(e, st) w.
     (case e of
        BatchCompleted j idx _ _ _ _ _ _ \<Rightarrow>
          (if j = jid
           then writeJob (Progress jid (js_times (Num (int idx)) bsize)
                            (successful (getStats st)) (failed (getStats st)))
                  (emitS (BatchCompletedForwarded e scheduled) w)
           else w)
      | _ \<Rightarrow> w))"

text \<open>The call of \<open>paymentService.processClients\<close> with the listener attached.\<close>

definition runEngine ::
    "upstream \<Rightarrow> client list \<Rightarrow> jsnum \<Rightarrow> string \<Rightarrow> bool \<Rightarrow> world \<Rightarrow> payresult list \<times> world" where
  "runEngine up clients bsize jid scheduled w =
     (let (res, evs, svc) = processClients up clients bsize jid (payment w);
          w1 = w\<lparr>payment := svc, engineEvents := engineEvents w @ evs\<rparr>
      in (res, fold (onBatchCompleted jid bsize scheduled) evs w1))"

definition mapDelete :: "string \<Rightarrow> (string \<times> job) list \<Rightarrow> (string \<times> job) list" where
  "mapDelete k m = filter (\<lambda>(k', _). k' \<noteq> k) m"

definition mapSet :: "string \<Rightarrow> job \<Rightarrow> (string \<times> job) list \<Rightarrow> (string \<times> job) list" where
  "mapSet k v m =
     (if k \<in> set (map fst m) then map (\<lambda>(k', v'). if k' = k then (k', v) else (k', v')) m
      else m @ [(k, v)])"

text \<open>The \<open>catch\<close> block of \<open>executeManualJob\<close>.\<close>

definition failManualJob :: "string \<Rightarrow> string \<Rightarrow> world \<Rightarrow> job_result \<times> world" where
  "failManualJob jid msg w =
     (let w1 = writeJob (MarkFailed jid msg) w;
          w2 = w1\<lparr>sched := (sched w1)\<lparr>runningJobs := mapDelete jid (runningJobs (sched w1)),
                                        currentJob := None\<rparr>\<rparr>
      in (JobError msg, emitS (JobFailed jid msg False) w2))"

text \<open>\<open>executeManualJob\<close>, with the job id that \<open>uuidv4\<close> draws. Nothing in it reads
  \<open>currentJob\<close> or \<open>runningJobs\<close> before the engine is called.\<close>

definition executeManualJob ::
    "string \<Rightarrow> upstream \<Rightarrow> settings_update \<Rightarrow> world \<Rightarrow> job_result \<times> world" where
  "executeManualJob jid up upd w =
     (let jobSettings = mergeSettings (settings (sched w)) upd
      in case getClients (includeInactive jobSettings) w of
           Inl e \<Rightarrow> failManualJob jid e w
         | Inr clients \<Rightarrow>
             (if clients = [] then failManualJob jid ''No clients found for processing'' w
              else
                (let manualJob = \<lparr>jobId = jid, status = Running, totalClients = length clients,
                                  isScheduled = False, job_error = None\<rparr>;
                     w1 = w\<lparr>sched := (sched w)\<lparr>runningJobs := mapSet jid manualJob (runningJobs (sched w)),
                                                currentJob := Some manualJob\<rparr>\<rparr>;
                     w2 = writeJob (CreateJob jid (length clients) (batchSize jobSettings)
                                      (includeInactive jobSettings)) w1;
                     w3 = writeJob (MarkRunning jid) w2;
                     w4 = emitS (JobStarted jid (length clients) (batchSize jobSettings)
                                   (includeInactive jobSettings) False) w3;
                     (res, w5) = runEngine up clients (batchSize jobSettings) jid False w4;
                     snap = getStats (stats (payment w5));
                     w6 = writeJob (MarkCompleted jid (length clients) (successful snap)
                                      (failed snap) snap) w5;
                     w7 = w6\<lparr>sched := (sched w6)\<lparr>runningJobs := mapDelete jid (runningJobs (sched w6)),
                                                  currentJob := None\<rparr>\<rparr>
                 in (JobOk jid snap, emitS (JobCompleted jid (length clients) res snap False) w7))))"

text \<open>The \<open>catch\<close> block of \<open>executeScheduledJob\<close>.\<close>

definition failScheduledJob :: "string \<Rightarrow> string \<Rightarrow> world \<Rightarrow> world" where
  "failScheduledJob jid msg w =
     (let w1 = writeJob (MarkFailed jid msg) w;
          w2 = w1\<lparr>sched := (sched w1)\<lparr>runningJobs := mapDelete jid (runningJobs (sched w1)),
                                        currentJob := None\<rparr>\<rparr>
      in emitS (JobFailed jid msg True) w2)"

definition executeScheduledJob :: "string \<Rightarrow> upstream \<Rightarrow> world \<Rightarrow> world" where
  "executeScheduledJob jid up w =
     (case getClients (includeInactive (settings (sched w))) w of
        Inl e \<Rightarrow> failScheduledJob jid e w
      | Inr clients \<Rightarrow>
          (if clients = [] then w
           else
             (let cur = \<lparr>jobId = jid, status = Running, totalClients = length clients,
                         isScheduled = True, job_error = None\<rparr>;
                  w1 = w\<lparr>sched := (sched w)\<lparr>currentJob := Some cur,
                                             runningJobs := mapSet jid cur (runningJobs (sched w))\<rparr>\<rparr>;
                  w2 = writeJob (CreateJob jid (length clients) (batchSize (settings (sched w1)))
                                   (includeInactive (settings (sched w1)))) w1;
                  w3 = writeJob (MarkRunning jid) w2;
                  w4 = emitS (JobStarted jid (length clients) (batchSize (settings (sched w3)))
                                (includeInactive (settings (sched w3))) True) w3;
                  (res, w5) = runEngine up clients (batchSize (settings (sched w4))) jid True w4;
                  snap = getStats (stats (payment w5));
                  w6 = writeJob (MarkCompleted jid (length clients) (successful snap)
                                   (failed snap) snap) w5;
                  w7 = w6\<lparr>sched := (sched w6)\<lparr>runningJobs := mapDelete jid (runningJobs (sched w6)),
                                               currentJob := None\<rparr>\<rparr>
              in emitS (JobCompleted jid (length clients) res snap True) w7)))"

text \<open>The callback that \<open>startScheduler\<close> hands to \<open>cron.schedule\<close>: what a timer fire
  runs.\<close>

definition cronCallback :: "string \<Rightarrow> upstream \<Rightarrow> world \<Rightarrow> world" where
  "cronCallback jid up w =
     (if (case currentJob (sched w) of None \<Rightarrow> False | Some j \<Rightarrow> status j = Running)
      then emitS (JobSkipped ''Previous job still running'') w
      else executeScheduledJob jid up w)"

section \<open>Control surface (PaymentController)\<close>

text \<open>
  A string is the list of its UTF-16 code units, each a number from 0 to \<open>0xFFFF\<close>;
  \<open>units\<close> gives the code units of a string of ASCII characters.
\<close>

type_synonym jsstring = "int list"

definition units :: "string \<Rightarrow> jsstring" where
  "units s = map of_char s"

text \<open>
  A field of the JSON request body. A number is given by the string that \<open>ToString\<close>
  yields for it: the decimal digits of an integer below \<open>10^21\<close> in magnitude (\<open>50\<close>), a
  decimal fraction (\<open>4.5\<close>), exponent notation from \<open>10^21\<close> on and for small fractions
  (\<open>1e+21\<close>, \<open>5e-7\<close>). An array or an object is given by its \<open>ToString\<close> as well
  (\<open>[7]\<close> by \<open>7\<close>, \<open>{}\<close> by \<open>[object Object]\<close>).
\<close>

datatype jsval = JNum jsstring | JStr jsstring | JBool bool | JNull | JObj jsstring

fun toString :: "jsval \<Rightarrow> jsstring" where
  "toString (JNum s) = s"
| "toString (JStr s) = s"
| "toString (JBool b) = (if b then units ''true'' else units ''false'')"
| "toString JNull = units ''null''"
| "toString (JObj s) = s"

text \<open>
  \<open>parseInt\<close> without a radix: \<open>ToString\<close>, leading white space stripped, an optional
  sign, an optional \<open>0x\<close> or \<open>0X\<close> prefix that selects radix 16, then the longest run of
  digits of the radix; no digit gives \<open>NaN\<close>. The white space is that of
  \<open>StrWhiteSpaceChar\<close>: tab, line feed, vertical tab, form feed, carriage return, space,
  no-break space, the space separators \<open>U+1680\<close>, \<open>U+2000\<close> to \<open>U+200A\<close>, \<open>U+202F\<close>,
  \<open>U+205F\<close> and \<open>U+3000\<close>, the line and paragraph separators \<open>U+2028\<close> and \<open>U+2029\<close>,
  and the byte order mark \<open>U+FEFF\<close>.
\<close>

definition isWhiteSpace :: "int \<Rightarrow> bool" where
  "isWhiteSpace u =
     ((0x0009 \<le> u \<and> u \<le> 0x000D) \<or> u = 0x0020 \<or> u = 0x00A0 \<or> u = 0x1680 \<or>
      (0x2000 \<le> u \<and> u \<le> 0x200A) \<or> u = 0x2028 \<or> u = 0x2029 \<or> u = 0x202F \<or>
      u = 0x205F \<or> u = 0x3000 \<or> u = 0xFEFF)"

text \<open>The value of a code unit as a digit: \<open>0\<close> to \<open>9\<close>, then the letters of either
  case from 10 on; 36 for a code unit that is no digit of any radix.\<close>

definition digitValue :: "int \<Rightarrow> int" where
  "digitValue u =
     (if 0x30 \<le> u \<and> u \<le> 0x39 then u - 0x30
      else if 0x61 \<le> u \<and> u \<le> 0x7A then u - 0x61 + 10
      else if 0x41 \<le> u \<and> u \<le> 0x5A then u - 0x41 + 10
      else 36)"

definition parseIntString :: "jsstring \<Rightarrow> jsnum" where
  "parseIntString s =
     (let t = dropWhile isWhiteSpace s;
          negative = (take 1 t = units ''-'');
          t1 = (if take 1 t = units ''-'' \<or> take 1 t = units ''+'' then drop 1 t else t);
          hex = (take 2 t1 = units ''0x'' \<or> take 2 t1 = units ''0X'');
          radix = (if hex then 16 else 10);
          t2 = (if hex then drop 2 t1 else t1);
          digits = takeWhile (\<lambda>c. digitValue c < radix) t2;
          magnitude = foldl (\<lambda>a c. a * radix + digitValue c) 0 digits
      in if digits = [] then NaN
         else Num (if negative then - magnitude else magnitude))"

definition parseInt :: "jsval \<Rightarrow> jsnum" where
  "parseInt v = parseIntString (toString v)"

text \<open>\<open>Boolean(v)\<close>: of the numbers only zero, which \<open>ToString\<close> gives as \<open>0\<close> whatever
  its sign, and \<open>NaN\<close> are false.\<close>

fun toBoolean :: "jsval \<Rightarrow> bool" where
  "toBoolean (JNum s) = (s \<noteq> units ''0'' \<and> s \<noteq> units ''NaN'')"
| "toBoolean (JStr s) = (s \<noteq> [])"
| "toBoolean (JBool b) = b"
| "toBoolean JNull = False"
| "toBoolean (JObj s) = True"

text \<open>The request body; \<open>None\<close> is a key that is absent (\<open>undefined\<close>).\<close>

record request_body =
  intervalHoursField :: "jsval option"
  batchSizeField :: "jsval option"
  includeInactiveField :: "jsval option"

datatype response_body =
    ErrorBody string
  | StartedBody settings "jsdate option" "jsdate list"
  | UpdatedBody settings "jsdate option" "jsdate list"
  | ManualStartedBody

datatype response = Response (http_status: nat) (http_body: response_body)

definition orDefault :: "jsval \<Rightarrow> jsval option \<Rightarrow> jsval" where
  "orDefault d v = (case v of None \<Rightarrow> d | Some x \<Rightarrow> x)"

text \<open>The handler of \<open>POST /scheduler/start\<close>. \<open>None\<close> is a request during which
  the process is aborted.\<close>

definition startSchedulerRoute :: "date \<Rightarrow> request_body \<Rightarrow> world \<Rightarrow> (response \<times> world) option" where
  "startSchedulerRoute now body w =
     (if \<not> testConnection w then Some (Response 500 (ErrorBody ''Database connection failed''), w)
      else
        (let hours = parseInt (orDefault (JNum (units ''4'')) (intervalHoursField body));
             bsize = parseInt (orDefault (JNum (units ''10'')) (batchSizeField body));
             inactive = toBoolean (orDefault (JBool False) (includeInactiveField body))
         in if js_less hours (Num 1) \<or> js_greater hours (Num 12)
            then Some (Response 400 (ErrorBody ''Interval hours must be between 1 and 12''), w)
            else if js_less bsize (Num 5) \<or> js_greater bsize (Num 100)
            then Some (Response 400 (ErrorBody ''Batch size must be between 5 and 100''), w)
            else
              (case getStatus now w of
                 Aborts \<Rightarrow> None
               | Throws e w1 \<Rightarrow> Some (Response 500 (ErrorBody e), w1)
               | Returns currentStatus w1 \<Rightarrow>
                   (if st_enabled currentStatus
                    then Some (Response 400 (ErrorBody ''Scheduler is already running''), w1)
                    else
                      (case startScheduler now
                              \<lparr>new_intervalHours = Some hours, new_batchSize = Some bsize,
                               new_includeInactive = Some inactive, new_enabled = None\<rparr> w1 of
                         Aborts \<Rightarrow> None
                       | Throws e w2 \<Rightarrow> Some (Response 500 (ErrorBody e), w2)
                       | Returns (nextRun, upcomingSchedules) w2 \<Rightarrow>
                           Some (Response 200
                                   (StartedBody (settings (sched w2)) nextRun upcomingSchedules),
                                 w2))))))"

text \<open>The handler of \<open>POST /scheduler/settings\<close>.\<close>

definition updateSettingsRoute :: "date \<Rightarrow> request_body \<Rightarrow> world \<Rightarrow> (response \<times> world) option" where
  "updateSettingsRoute now body w =
     (let hours = map_option parseInt (intervalHoursField body);
          bsize = map_option parseInt (batchSizeField body)
      in if (case hours of None \<Rightarrow> False
                         | Some h \<Rightarrow> js_less h (Num 1) \<or> js_greater h (Num 12))
         then Some (Response 400 (ErrorBody ''Interval hours must be between 1 and 12''), w)
         else if (case bsize of None \<Rightarrow> False
                             | Some n \<Rightarrow> js_less n (Num 5) \<or> js_greater n (Num 100))
         then Some (Response 400 (ErrorBody ''Batch size must be between 5 and 100''), w)
         else
           (case updateSettings now
                   \<lparr>new_intervalHours = hours, new_batchSize = bsize,
                    new_includeInactive = map_option toBoolean (includeInactiveField body),
                    new_enabled = None\<rparr> w of
              Aborts \<Rightarrow> None
            | Throws e w1 \<Rightarrow> Some (Response 500 (ErrorBody e), w1)
            | Returns _ w1 \<Rightarrow>
                (case getStatus now w1 of
                   Aborts \<Rightarrow> None
                 | Throws e w2 \<Rightarrow> Some (Response 500 (ErrorBody e), w2)
                 | Returns st w2 \<Rightarrow>
                     Some (Response 200
                             (UpdatedBody (settings (sched w2)) (st_nextRun st)
                                (st_upcomingSchedules st)),
                           w2))))"

text \<open>The handler of \<open>POST /jobs/manual\<close>. The job is started without being awaited;
  here it has run by the time the response is given.\<close>

definition runManualJobRoute ::
    "string \<Rightarrow> upstream \<Rightarrow> request_body \<Rightarrow> world \<Rightarrow> response \<times> world" where
  "runManualJobRoute jid up body w =
     (if \<not> testConnection w then (Response 500 (ErrorBody ''Database connection failed''), w)
      else
        (let bsize = parseInt (orDefault (JNum (units ''10'')) (batchSizeField body));
             inactive = toBoolean (orDefault (JBool False) (includeInactiveField body))
         in if js_less bsize (Num 5) \<or> js_greater bsize (Num 100)
            then (Response 400 (ErrorBody ''Batch size must be between 5 and 100''), w)
            else
              (let (result, w1) = executeManualJob jid up
                                    \<lparr>new_intervalHours = None, new_batchSize = Some bsize,
                                     new_includeInactive = Some inactive, new_enabled = None\<rparr> w
               in (Response 200 ManualStartedBody, w1))))"

section \<open>Example data\<close>

text \<open>A row as \<open>getClients\<close> returns it, and an item as the retry logic requeues it.\<close>

definition freshClient :: "string \<Rightarrow> client" where
  "freshClient m = \<lparr>msisdn = m, offer_code = ''1001'', subscription_status = ''A'',
                     retryCount = None, lastError = None\<rparr>"

definition retryClient :: "string \<Rightarrow> nat \<Rightarrow> client" where
  "retryClient m n = \<lparr>msisdn = m, offer_code = ''1001'', subscription_status = ''A'',
                     retryCount = Some n, lastError = Some ''timeout of 10000ms exceeded''\<rparr>"

text \<open>An upstream on which every request is refused, and a service that has not run yet.\<close>

definition failingUpstream :: upstream where
  "failingUpstream = (\<lambda>i p c.
     \<lparr>usePrimary = True,
      reply = Inl \<lparr>err_code = Some ''ECONNREFUSED'', err_message = ''connect ECONNREFUSED'',
                   err_status = None\<rparr>,
      latency = p\<rparr>)"

definition idleService :: payment_service where
  "idleService = \<lparr>stats = resetStats, failedQueue = []\<rparr>"

text \<open>An upstream that accepts every request, and one on which a client's first two
  attempts fail and the third succeeds.\<close>

definition acceptingUpstream :: upstream where
  "acceptingUpstream = (\<lambda>i p c.
     \<lparr>usePrimary = even p, reply = Inr (''0'', ''Accepted''), latency = p\<rparr>)"

definition flakyUpstream :: upstream where
  "flakyUpstream = (\<lambda>i p c.
     \<lparr>usePrimary = True,
      reply = (if retryCountOr0 c < 2
               then Inl \<lparr>err_code = Some ''ECONNABORTED'',
                         err_message = ''timeout of 10000ms exceeded'', err_status = None\<rparr>
               else Inr (''0'', ''Accepted'')),
      latency = p\<rparr>)"

text \<open>An upstream on which the first attempt of a client fails with status 503 and its retry
  succeeds, the later positions of a batch settling first; and ten rows.\<close>

definition failFirstUpstream :: upstream where
  "failFirstUpstream = (\<lambda>i p c.
     \<lparr>usePrimary = False,
      reply = (if retryCountOr0 c = 0
               then Inl \<lparr>err_code = None, err_message = ''Request failed with status code 503'',
                         err_status = Some 503\<rparr>
               else Inr (''0'', ''Accepted'')),
      latency = 10 - p\<rparr>)"

definition tenClients :: "client list" where
  "tenClients = map freshClient
     [''254700000001'', ''254700000002'', ''254700000003'', ''254700000004'', ''254700000005'',
      ''254700000006'', ''254700000007'', ''254700000008'', ''254700000009'', ''254700000010'']"

text \<open>Example states: a scheduler that was never started, one that is enabled with a
  four-hour interval, and the latter while its scheduled job \<open>job-1\<close> is running; and
  example request bodies.\<close>

definition defaultSettings :: settings where
  "defaultSettings = \<lparr>intervalHours = Num 4, batchSize = Num 10, includeInactive = False,
                        enabled = False\<rparr>"

definition fourHourSettings :: settings where
  "fourHourSettings = \<lparr>intervalHours = Num 4, batchSize = Num 75, includeInactive = False,
                         enabled = True\<rparr>"

definition idleWorld :: world where
  "idleWorld =
     \<lparr>sched = \<lparr>scheduledTask = None, currentJob = None, runningJobs = [],
               settings = defaultSettings\<rparr>,
      payment = idleService, dbFailure = None, schedulerState = None, jobWrites = [],
      clientRows = (\<lambda>inactive. [freshClient ''254700000001'']),
      schedEvents = [], engineEvents = [], heapSuffices = True\<rparr>"

definition enabledWorld :: world where
  "enabledWorld =
     idleWorld\<lparr>sched := \<lparr>scheduledTask = Some [0, 4, 8, 12, 16, 20], currentJob = None,
                         runningJobs = [], settings = fourHourSettings\<rparr>,
               schedulerState := Some fourHourSettings\<rparr>"

definition runningJob :: job where
  "runningJob = \<lparr>jobId = ''job-1'', status = Running, totalClients = 1, isScheduled = True,
                  job_error = None\<rparr>"

definition busyWorld :: world where
  "busyWorld =
     enabledWorld\<lparr>sched := (sched enabledWorld)\<lparr>currentJob := Some runningJob,
                                                  runningJobs := [(''job-1'', runningJob)]\<rparr>\<rparr>"

definition noon :: date where
  "noon = \<lparr>d_day = 0, d_hour = 12, d_minute = 0, d_second = 0, d_ms = 0\<rparr>"

definition goodBody :: request_body where
  "goodBody = \<lparr>intervalHoursField = Some (JStr (units ''6'')),
                batchSizeField = Some (JNum (units ''50'')),
                includeInactiveField = None\<rparr>"

definition nanBody :: request_body where
  "nanBody = \<lparr>intervalHoursField = Some (JStr (units ''abc'')),
               batchSizeField = Some (JNum (units ''75'')), includeInactiveField = None\<rparr>"

definition nanSizeBody :: request_body where
  "nanSizeBody = \<lparr>intervalHoursField = Some (JStr (units ''6'')),
                   batchSizeField = Some (JStr (units ''many'')), includeInactiveField = None\<rparr>"

text \<open>The body of a request for a manual run.\<close>

definition manualBody :: request_body where
  "manualBody = \<lparr>intervalHoursField = None, batchSizeField = Some (JNum (units ''50'')),
                  includeInactiveField = None\<rparr>"

text \<open>A start request with an interval of five hours, and a clock reading 16:30.\<close>

definition fiveHourBody :: request_body where
  "fiveHourBody = \<lparr>intervalHoursField = Some (JNum (units ''5'')),
                    batchSizeField = Some (JNum (units ''75'')), includeInactiveField = None\<rparr>"

definition halfPastFour :: date where
  "halfPastFour = \<lparr>d_day = 0, d_hour = 16, d_minute = 30, d_second = 0, d_ms = 0\<rparr>"

section \<open>Properties of the dispatch engine\<close>

subsection \<open>Composition of a batch\<close>

text \<open>
  The batch as the specification words it: up to \<open>batchSize\<close> items, taken first from
  the retry queue, then from the primary queue for what is left of the batch size.
\<close>

definition spec_takeBatch :: "nat \<Rightarrow> client list \<Rightarrow> client list \<Rightarrow> client list \<times> client list" where
  "spec_takeBatch bsz retryQueue primaryQueue =
     (let retryTaken = take bsz retryQueue;
          primaryTaken = take (bsz - length retryTaken) primaryQueue
      in (retryTaken, primaryTaken))"

lemma batch_total_arith:
  fixes lr lt p r n1 :: nat and b :: int
  assumes "lr = min p n1" and "lt = min r (nat (b - int lr))" and "n1 \<le> nat b"
  shows "lr + lt \<le> nat b"
  using assms by linarith

lemma batch_retry_arith:
  fixes lr p r :: nat and b :: int
  assumes "lr = min p (nat (max 1 (b - int r)))" and "r < nat b"
  shows "r \<le> nat (b - int lr)"
  using assms by linarith

lemma takeBatch_shape:
  assumes "1 \<le> b"
    and "takeBatch (Num b) primaryQueue retryQueue = (regularBatch, retryBatch, rest, fqRest)"
  shows "regularBatch = take (nat (max 1 (b - int (length retryQueue)))) primaryQueue \<and>
         retryBatch = take (nat (b - int (length regularBatch))) retryQueue \<and>
         primaryQueue = regularBatch @ rest \<and> retryQueue = retryBatch @ fqRest \<and>
         length (regularBatch @ retryBatch) \<le> nat b \<and>
         length regularBatch \<le> nat b - length retryBatch \<and>
         (length retryQueue < nat b \<longrightarrow> retryBatch = retryQueue) \<and>
         (primaryQueue \<noteq> [] \<longrightarrow> regularBatch \<noteq> [])"
proof -
  let ?n1 = "nat (max 1 (b - int (length retryQueue)))"
  let ?n2 = "nat (b - int (length regularBatch))"
  have reg: "regularBatch = take ?n1 primaryQueue" and rest: "rest = drop ?n1 primaryQueue"
    using assms(2) by (simp_all add: takeBatch_def splice0_def Let_def)
  have ret: "retryBatch = take ?n2 retryQueue" and fq: "fqRest = drop ?n2 retryQueue"
    using assms(2) by (auto simp add: takeBatch_def splice0_def Let_def)
  have c3: "primaryQueue = regularBatch @ rest"
    unfolding reg rest by simp
  have c4: "retryQueue = retryBatch @ fqRest"
    unfolding ret fq by simp
  have lreg: "length regularBatch = min (length primaryQueue) ?n1"
    unfolding reg by simp
  have lret: "length retryBatch = min (length retryQueue) ?n2"
    unfolding ret by simp
  have n1: "?n1 \<le> nat b" "1 \<le> ?n1"
    using assms(1) by linarith+
  have total: "length regularBatch + length retryBatch \<le> nat b"
    by (rule batch_total_arith[OF lreg lret n1(1)])
  have all: "retryBatch = retryQueue" if "length retryQueue < nat b"
  proof -
    have "length retryQueue \<le> ?n2" by (rule batch_retry_arith[OF lreg that])
    then show ?thesis unfolding ret by simp
  qed
  have ne: "regularBatch \<noteq> []" if "primaryQueue \<noteq> []"
  proof -
    have "0 < length primaryQueue" using that by simp
    then have "0 < length regularBatch" using n1(2) lreg by simp
    then show ?thesis by auto
  qed
  have c5: "length (regularBatch @ retryBatch) \<le> nat b" using total by simp
  have c6: "length regularBatch \<le> nat b - length retryBatch" using total by simp
  show ?thesis
    by (intro conjI impI; (rule reg ret c3 c4 c5 c6 all ne; assumption?))
qed




text \<open>
  Claim C2, as the code has it. For a batch size of at least one, the batch is cut from
  the primary queue first, for \<open>max 1 (batchSize - length retryQueue)\<close> items, and then
  from the retry queue for \<open>batchSize - length regularBatch\<close> items. It never exceeds
  the batch size, the primary items number at most the batch size minus the retry items
  taken, every queued retry is taken while the retry queue is shorter than the batch
  size, and a non-empty primary queue always contributes at least one item.
\<close>

theorem takeBatch_composition:
  assumes "1 \<le> b"
    and "takeBatch (Num b) primaryQueue retryQueue = (regularBatch, retryBatch, rest, fqRest)"
  shows "regularBatch = take (nat (max 1 (b - int (length retryQueue)))) primaryQueue \<and>
         retryBatch = take (nat (b - int (length regularBatch))) retryQueue \<and>
         primaryQueue = regularBatch @ rest \<and> retryQueue = retryBatch @ fqRest \<and>
         length (regularBatch @ retryBatch) \<le> nat b \<and>
         length regularBatch \<le> nat b - length retryBatch \<and>
         (length retryQueue < nat b \<longrightarrow> retryBatch = retryQueue) \<and>
         (primaryQueue \<noteq> [] \<longrightarrow> regularBatch \<noteq> [])"
  using assms by (rule takeBatch_shape)

theorem takeBatch_composition_witness:
  "takeBatch (Num 5) [freshClient ''254700000001'', freshClient ''254700000002'']
       [retryClient ''254700000003'' 1] =
     ([freshClient ''254700000001'', freshClient ''254700000002''], [retryClient ''254700000003'' 1], [], [])
   \<and> length ([freshClient ''254700000001'', freshClient ''254700000002''] @ [retryClient ''254700000003'' 1]) \<le> nat 5"
proof -
  have e: "takeBatch (Num 5) [freshClient ''254700000001'', freshClient ''254700000002'']
       [retryClient ''254700000003'' 1] =
     ([freshClient ''254700000001'', freshClient ''254700000002''], [retryClient ''254700000003'' 1], [], [])"
    by (simp add: takeBatch_def splice0_def)
  show ?thesis
    using takeBatch_composition[OF _ e] e by simp
qed

text \<open>
  Claim C2 as stated fails: with five queued retries, three primary items and a batch
  size of five, the code takes one primary item and four retries, where filling from the
  retry queue first takes the five retries and no primary item.
\<close>

theorem retry_first_counterexample:
  "takeBatch (Num 5)
      [freshClient ''254700000006'', freshClient ''254700000007'', freshClient ''254700000008'']
      [retryClient ''254700000001'' 1, retryClient ''254700000002'' 1, retryClient ''254700000003'' 1,
       retryClient ''254700000004'' 1, retryClient ''254700000005'' 1]
    = ([freshClient ''254700000006''],
       [retryClient ''254700000001'' 1, retryClient ''254700000002'' 1, retryClient ''254700000003'' 1,
        retryClient ''254700000004'' 1],
       [freshClient ''254700000007'', freshClient ''254700000008''],
       [retryClient ''254700000005'' 1])
   \<and> spec_takeBatch 5
      [retryClient ''254700000001'' 1, retryClient ''254700000002'' 1, retryClient ''254700000003'' 1,
       retryClient ''254700000004'' 1, retryClient ''254700000005'' 1]
      [freshClient ''254700000006'', freshClient ''254700000007'', freshClient ''254700000008'']
    = ([retryClient ''254700000001'' 1, retryClient ''254700000002'' 1, retryClient ''254700000003'' 1,
        retryClient ''254700000004'' 1, retryClient ''254700000005'' 1], [])"
  by (simp add: takeBatch_def splice0_def spec_takeBatch_def)

subsection \<open>The empty run\<close>

text \<open>
  Claim C7. A run over no clients returns no results and emits exactly
  \<open>processingStarted\<close> and \<open>processingCompleted\<close>, the latter with a snapshot whose
  counters are all zero; no batch event is emitted.
\<close>

theorem empty_run:
  "processClients up [] bsz jid svc =
     ([],
      [(ProcessingStarted jid 0 bsz, resetStats),
       (ProcessingCompleted jid 0 [] (getStats resetStats), resetStats)],
      svc\<lparr>stats := resetStats, failedQueue := []\<rparr>)
   \<and> getStats resetStats =
      \<lparr>totalRequests = 0, successful = 0, failed = 0, retried = 0,
       primaryServerRequests = 0, fallbackServerRequests = 0, primaryServerSuccess = 0,
       fallbackServerSuccess = 0,
       errors = \<lparr>timeout = 0, connection = 0, server_errors = 0, auth = 0, other = 0\<rparr>,
       permanentFailures = 0\<rparr>"
  by (simp add: processClients_def processLoop.simps batchStep_def getStats_def resetStats_def)

subsection \<open>The retry cap\<close>























subsection \<open>Permanent failures\<close>













subsection \<open>Batches and attempts\<close>

text \<open>The batches started in a list of recorded events, the attempts reported by its
  \<open>batchCompleted\<close> events (successes plus failures), and the statistics whose
  successes and failures add up to the total.\<close>

fun isBatchStarted :: "event \<Rightarrow> bool" where
  "isBatchStarted (BatchStarted _ _ _ _) = True"
| "isBatchStarted _ = False"


definition batchesStarted :: "(event \<times> statistics) list \<Rightarrow> nat" where
  "batchesStarted evs = length (filter (\<lambda>x. isBatchStarted (fst x)) evs)"


definition balanced :: "statistics \<Rightarrow> bool" where
  "balanced st = (successful st + failed st = totalRequests st)"



lemma selectServer_balanced:
  "balanced st \<Longrightarrow> balanced (snd (selectServer p st))"
  by (simp add: balanced_def selectServer_def)










subsection \<open>Two runs\<close>

text \<open>
  Ten clients with a batch size of four, all accepted, run as three batches of 4, 4 and
  2 clients. Five clients with a batch size of five whose first attempts all fail are
  retried in one further batch, in the order in which the failures settled, and end with
  five successes, five failures, five retries and no permanent failure.
\<close>

lemma ten_clients_batches_of_four:
  "(let (res, evs, svc) = processClients acceptingUpstream tenClients (Num 4) ''job-1'' idleService;
        snap = getStats (stats svc)
    in map ev_batchLength (filter isBatchStarted (map fst evs)) = [4, 4, 2] \<and>
       successful snap = 10 \<and> failed snap = 0 \<and> retried snap = 0 \<and>
       primaryServerRequests snap = 5 \<and> fallbackServerRequests snap = 5)"
  by code_simp

lemma five_clients_succeed_on_retry:
  "(let (res, evs, svc) = processClients failFirstUpstream (take 5 tenClients) (Num 5) ''job-1''
                            idleService;
        snap = getStats (stats svc)
    in map ev_batchLength (filter isBatchStarted (map fst evs)) = [5, 5] \<and>
       map ev_retryCount (filter isBatchStarted (map fst evs)) = [0, 5] \<and>
       map r_msisdn (drop 5 res) = rev (map msisdn (take 5 tenClients)) \<and>
       successful snap = 5 \<and> failed snap = 5 \<and> retried snap = 5 \<and> permanentFailures snap = 0 \<and>
       server_errors (errors snap) = 5)"
  by code_simp

subsection \<open>What the permanent-failure count counts\<close>

text \<open>
  Claim C4 does not hold of the code. \<open>failed\<close> is incremented on every failed attempt
  and \<open>retried\<close> only when a retry succeeds. A single client whose four attempts all
  fail leaves \<open>failed = 4\<close>, \<open>retried = 0\<close> and \<open>permanentFailures = 4\<close>, although one
  item never succeeded; a single client that succeeds on its third attempt leaves
  \<open>failed = 2\<close>, \<open>retried = 1\<close> and \<open>permanentFailures = 1\<close>, although no item failed for
  good.
\<close>

theorem permanent_failures_count_attempts:
  "(let (res, evs, svc') = processClients failingUpstream [freshClient ''254700000001''] (Num 5)
                             ''job-1'' idleService;
        snap = getStats (stats svc')
    in length res = 4 \<and> list_all (\<lambda>r. \<not> success r) res \<and>
       failed snap = 4 \<and> retried snap = 0 \<and> permanentFailures snap = 4) \<and>
   (let (res, evs, svc') = processClients flakyUpstream [freshClient ''254700000001''] (Num 5)
                             ''job-1'' idleService;
        snap = getStats (stats svc')
    in length res = 3 \<and> success (last res) \<and>
       failed snap = 2 \<and> retried snap = 1 \<and> permanentFailures snap = 1)"
  by code_simp

section \<open>Properties of the scheduler and the control surface\<close>

subsection \<open>The hours of the cron expression\<close>

lemma scheduleLoop_NaN: "scheduleLoop NaN interval acc = Inr acc"
  by (subst scheduleLoop.simps) simp

lemma scheduleLoop_done: "\<not> h < 24 \<Longrightarrow> scheduleLoop (Num h) interval acc = Inr acc"
  by (subst scheduleLoop.simps) simp

lemma scheduleLoop_step:
  "h < 24 \<Longrightarrow> length acc < maxArrayLength \<Longrightarrow>
   scheduleLoop (Num h) interval acc = scheduleLoop (js_plus (Num h) interval) interval (acc @ [h])"
  by (subst scheduleLoop.simps) simp

lemma scheduleLoop_full:
  "h < 24 \<Longrightarrow> \<not> length acc < maxArrayLength \<Longrightarrow>
   scheduleLoop (Num h) interval acc = Inl ''Invalid array length''"
  by (subst scheduleLoop.simps) simp

lemma map_upt_Suc0: "map f [0..<Suc n] = f 0 # map (\<lambda>k. f (Suc k)) [0..<n]"
proof -
  have "[0..<Suc n] = 0 # map Suc [0..<n]"
    by (simp add: upt_conv_Cons map_Suc_upt del: upt_Suc)
  then show ?thesis by (simp add: comp_def del: upt_Suc)
qed

text \<open>With an interval \<open>i\<close> of at least one the loop ends by its condition, with the
  multiples of \<open>i\<close> below 24.\<close>

lemma scheduleLoop_positive:
  assumes "1 \<le> i"
  shows "length acc + nat (24 - h) \<le> maxArrayLength \<Longrightarrow>
         \<exists>n. scheduleLoop (Num h) (Num i) acc = Inr (acc @ map (\<lambda>k. h + int k * i) [0..<n])
             \<and> (h < 24 \<longrightarrow> 0 < n) \<and> (\<forall>k<n. h + int k * i < 24) \<and> 24 \<le> h + int n * i"
proof (induction "nat (24 - h)" arbitrary: h acc rule: less_induct)
  case less
  show ?case
  proof (cases "h < 24")
    case False
    then have "scheduleLoop (Num h) (Num i) acc = Inr (acc @ map (\<lambda>k. h + int k * i) [0..<0])"
      by (simp add: scheduleLoop_done)
    with False show ?thesis by (intro exI[of _ 0]) simp
  next
    case True
    have room: "length acc < maxArrayLength" using True less.prems by linarith
    have dec: "nat (24 - (h + i)) < nat (24 - h)" using True assms by linarith
    have fits: "length (acc @ [h]) + nat (24 - (h + i)) \<le> maxArrayLength"
      using True assms less.prems by simp
    from less.hyps[OF dec fits] obtain n where
      n: "scheduleLoop (Num (h + i)) (Num i) (acc @ [h])
            = Inr ((acc @ [h]) @ map (\<lambda>k. h + i + int k * i) [0..<n])"
      and b: "\<forall>k<n. h + i + int k * i < 24" and e: "24 \<le> h + i + int n * i"
      by blast
    have m: "map (\<lambda>k. h + int k * i) [0..<Suc n] = h # map (\<lambda>k. h + i + int k * i) [0..<n]"
      by (simp only: map_upt_Suc0) (simp add: algebra_simps)
    have r: "scheduleLoop (Num h) (Num i) acc = Inr (acc @ map (\<lambda>k. h + int k * i) [0..<Suc n])"
      using n True room by (simp add: scheduleLoop_step m del: upt_Suc)
    have b': "\<forall>k<Suc n. h + int k * i < 24"
    proof (intro allI impI)
      fix k assume "k < Suc n"
      show "h + int k * i < 24"
      proof (cases k)
        case 0
        then show ?thesis using True by simp
      next
        case (Suc j)
        then have "j < n" using \<open>k < Suc n\<close> by simp
        with b have "h + i + int j * i < 24" by blast
        then show ?thesis using Suc by (simp add: algebra_simps)
      qed
    qed
    have e': "24 \<le> h + int (Suc n) * i" using e by (simp add: algebra_simps)
    show ?thesis
    proof (intro exI[of _ "Suc n"] conjI impI)
      show "scheduleLoop (Num h) (Num i) acc = Inr (acc @ map (\<lambda>k. h + int k * i) [0..<Suc n])"
        by (rule r)
      show "0 < Suc n" by simp
      show "\<forall>k<Suc n. h + int k * i < 24" by (rule b')
      show "24 \<le> h + int (Suc n) * i" by (rule e')
    qed
  qed
qed

lemma getScheduleTimes_positive:
  assumes "1 \<le> i"
  shows "\<exists>n. getScheduleTimes heap (Num i) = Normal (map (\<lambda>k. int k * i) [0..<Suc n])
           \<and> (\<forall>k<Suc n. int k * i < 24) \<and> 24 \<le> int (Suc n) * i"
proof -
  have "length ([]::int list) + nat (24 - 0) \<le> maxArrayLength"
    by (simp add: maxArrayLength_def)
  from scheduleLoop_positive[OF assms this] obtain n where
    n: "scheduleLoop (Num 0) (Num i) [] = Inr ([] @ map (\<lambda>k. 0 + int k * i) [0..<n])"
    and p: "(0::int) < 24 \<longrightarrow> 0 < n"
    and b: "\<forall>k<n. 0 + int k * i < 24" and e: "24 \<le> 0 + int n * i"
    by blast
  from p obtain m where nm: "n = Suc m" by (cases n) auto
  have g: "getScheduleTimes heap (Num i) = Normal (map (\<lambda>k. int k * i) [0..<Suc m])"
    using n unfolding getScheduleTimes_def nm by (simp del: upt_Suc)
  have b': "\<forall>k<Suc m. int k * i < 24" using b unfolding nm by simp
  have e': "24 \<le> int (Suc m) * i" using e unfolding nm by simp
  show ?thesis
    by (intro exI[of _ m] conjI) (rule g b' e')+
qed

lemma getScheduleTimes_NaN: "getScheduleTimes heap NaN = Normal [0]"
  unfolding getScheduleTimes_def
  by (simp add: scheduleLoop_step scheduleLoop_NaN maxArrayLength_def)

text \<open>With an interval of zero or less the loop ends with the error only.\<close>

lemma scheduleLoop_runaway:
  assumes "i \<le> 0"
  shows "h < 24 \<Longrightarrow> scheduleLoop (Num h) (Num i) acc = Inl ''Invalid array length''"
proof (induction "maxArrayLength - length acc" arbitrary: h acc rule: less_induct)
  case less
  show ?case
  proof (cases "length acc < maxArrayLength")
    case False
    then show ?thesis using less.prems by (simp add: scheduleLoop_full)
  next
    case True
    have dec: "maxArrayLength - length (acc @ [h]) < maxArrayLength - length acc"
      using True by simp
    have "h + i < 24" using less.prems assms by linarith
    from less.hyps[OF dec this] show ?thesis
      using True less.prems by (simp add: scheduleLoop_step)
  qed
qed

lemma getScheduleTimes_runaway:
  assumes "i \<le> 0"
  shows "getScheduleTimes heap (Num i) = (if heap then Thrown ''Invalid array length'' else Aborted)"
  unfolding getScheduleTimes_def using scheduleLoop_runaway[OF assms, of 0 "[]"] by simp

text \<open>The intervals over which the loop ends by its condition.\<close>

definition loopEnds :: "jsnum \<Rightarrow> bool" where
  "loopEnds interval = (case interval of Num i \<Rightarrow> 1 \<le> i | NaN \<Rightarrow> True)"

lemma getScheduleTimes_Normal: "loopEnds x \<Longrightarrow> \<exists>hs. getScheduleTimes heap x = Normal hs"
  using getScheduleTimes_positive getScheduleTimes_NaN
  by (cases x) (fastforce simp: loopEnds_def)+

lemma getScheduleTimes_Aborted: "getScheduleTimes heap x = Aborted \<longleftrightarrow> \<not> heap \<and> \<not> loopEnds x"
proof (cases "loopEnds x")
  case True
  from getScheduleTimes_Normal[OF this, of heap] True show ?thesis by auto
next
  case False
  then obtain i where "x = Num i" "i \<le> 0" by (cases x) (auto simp: loopEnds_def)
  then show ?thesis using False by (simp add: getScheduleTimes_runaway)
qed

lemma fourHour_cron: "getScheduleTimes heap (Num 4) = Normal [0, 4, 8, 12, 16, 20]"
  by (simp add: getScheduleTimes_def scheduleLoop_step scheduleLoop_done maxArrayLength_def)

lemma fiveHour_cron: "getScheduleTimes heap (Num 5) = Normal [0, 5, 10, 15, 20]"
  by (simp add: getScheduleTimes_def scheduleLoop_step scheduleLoop_done maxArrayLength_def)

text \<open>For an interval \<open>i\<close> of at least one hour the hours of the cron expression are the
  multiples of \<open>i\<close> from 0 to 23.\<close>

lemma cron_hours:
  assumes pos: "1 \<le> i" and hs: "getScheduleTimes heap (Num i) = Normal hs"
  shows "set hs = {h. 0 \<le> h \<and> h < 24 \<and> i dvd h}"
proof -
  from getScheduleTimes_positive[OF pos, of heap] obtain n where
    ts0: "getScheduleTimes heap (Num i) = Normal (map (\<lambda>k. int k * i) [0..<Suc n])"
    and b: "\<forall>k<Suc n. int k * i < 24" and e: "24 \<le> int (Suc n) * i"
    by blast
  have ts: "hs = map (\<lambda>k. int k * i) [0..<Suc n]" using ts0 hs by simp
  have s: "set hs = (\<lambda>k. int k * i) ` {0..<Suc n}"
    unfolding ts by (simp del: upt_Suc)
  show ?thesis
  proof (intro set_eqI iffI)
    fix h assume "h \<in> set hs"
    then obtain k where k: "k < Suc n" "h = int k * i" unfolding s by auto
    with b have "h < 24" by blast
    moreover have "0 \<le> h" using k pos by simp
    moreover have "i dvd h" using k by simp
    ultimately show "h \<in> {h. 0 \<le> h \<and> h < 24 \<and> i dvd h}" by simp
  next
    fix h assume "h \<in> {h. 0 \<le> h \<and> h < 24 \<and> i dvd h}"
    then have h0: "0 \<le> h" and h24: "h < 24" and dv: "i dvd h" by simp_all
    from dv obtain q where q: "h = i * q" by (auto simp: dvd_def)
    have ip: "0 < i" using pos by simp
    have q0: "0 \<le> q"
    proof (rule ccontr)
      assume "\<not> 0 \<le> q"
      then have "q \<le> - 1" by simp
      then have "i * q \<le> i * (- 1)" using ip by (simp only: mult_le_cancel_left_pos)
      then show False using q h0 ip by simp
    qed
    have "i * q < 24" using q h24 by simp
    also have "24 \<le> i * int (Suc n)" using e by (simp only: mult.commute[of i])
    finally have "i * q < i * int (Suc n)" .
    then have "q < int (Suc n)" using ip by (simp only: mult_less_cancel_left_pos)
    then have "nat q < Suc n" using q0 by linarith
    then have m: "nat q \<in> {0..<Suc n}" by simp
    have "int (nat q) = q" using q0 by simp
    then have "h = int (nat q) * i" using q by (simp only: mult.commute[of i q])
    then show "h \<in> set hs" unfolding s using m by (rule image_eqI)
  qed
qed

subsection \<open>Validation of a start request\<close>

lemma parseInt_examples:
  "parseInt (JStr (units ''6'')) = Num 6 \<and> parseInt (JStr (units ''abc'')) = NaN \<and>
   parseInt (JStr (units '' 42px'')) = Num 42 \<and> parseInt (JStr (units ''0x1F'')) = Num 31 \<and>
   parseInt (JStr (units ''-7'')) = Num (- 7) \<and> parseInt (JStr []) = NaN \<and>
   parseInt (JStr (0x00A0 # units ''3'')) = Num 3 \<and>
   parseInt (JStr (0x2003 # 0xFEFF # units ''+12'')) = Num 12 \<and>
   parseInt (JNum (units ''50'')) = Num 50 \<and> parseInt (JNum (units ''4.5'')) = Num 4 \<and>
   parseInt (JNum (units ''1e+21'')) = Num 1 \<and> parseInt (JNum (units ''-2.5e+30'')) = Num (- 2) \<and>
   parseInt (JBool True) = NaN \<and> parseInt JNull = NaN \<and>
   parseInt (JObj (units ''7'')) = Num 7 \<and> parseInt (JObj (units ''[object Object]'')) = NaN"
  by code_simp

lemma parseInt_defaults:
  "parseInt (JNum (units ''4'')) = Num 4" "parseInt (JNum (units ''10'')) = Num 10"
  by code_simp+

text \<open>The range check of the control surface, as a predicate on the parsed value: the
  request is rejected unless it holds.\<close>

definition passesRange :: "int \<Rightarrow> int \<Rightarrow> jsnum \<Rightarrow> bool" where
  "passesRange lo hi x = (\<not> (js_less x (Num lo) \<or> js_greater x (Num hi)))"

text \<open>What \<open>getStatus\<close> reports as \<open>enabled\<close>: the persisted flag when the row can be
  read, the in-memory flag otherwise.\<close>

definition alreadyEnabled :: "world \<Rightarrow> bool" where
  "alreadyEnabled w = (case getSchedulerState w of
                         None \<Rightarrow> enabled (settings (sched w))
                       | Some dbState \<Rightarrow> enabled dbState)"

text \<open>The states in which the process outlives the computation of the next fire time:
  the heap suffices, or no timer is armed, or the loop over the interval in force ends
  by its condition.\<close>

definition outlivesStatus :: "world \<Rightarrow> bool" where
  "outlivesStatus w = (heapSuffices w \<or> scheduledTask (sched w) = None \<or>
                       loopEnds (intervalHours (settings (sched w))))"

lemma passesRange_iff:
  "passesRange lo hi x \<longleftrightarrow> x = NaN \<or> (\<exists>v. x = Num v \<and> lo \<le> v \<and> v \<le> hi)"
  by (cases x) (auto simp: passesRange_def)

lemma passesRange_loopEnds: "passesRange 1 12 x \<Longrightarrow> loopEnds x"
  by (cases x) (auto simp: passesRange_def loopEnds_def)

lemma startScheduler_returns:
  assumes "dbFailure w = None"
    and "getScheduleTimes (heapSuffices w) (intervalHours (mergeSettings (settings (sched w)) upd))
           = Normal hs"
  shows "\<exists>w'. startScheduler now upd w = Returns (None, []) w' \<and>
           schedulerState w' = Some ((mergeSettings (settings (sched w)) upd)\<lparr>enabled := True\<rparr>) \<and>
           settings (sched w') = (mergeSettings (settings (sched w)) upd)\<lparr>enabled := False\<rparr> \<and>
           scheduledTask (sched w') = Some hs \<and> dbFailure w' = None \<and>
           heapSuffices w' = heapSuffices w"
  using assms
  by (simp add: startScheduler_def saveSchedulerState_def stopScheduler_def emitS_def
      getNextRunTime_def getNextRunTimes_def Let_def)

lemma startScheduler_throws:
  assumes "dbFailure w = None"
    and "getScheduleTimes (heapSuffices w) (intervalHours (mergeSettings (settings (sched w)) upd))
           = Thrown e"
  shows "\<exists>w'. startScheduler now upd w = Throws e w' \<and>
           schedulerState w' = Some ((mergeSettings (settings (sched w)) upd)\<lparr>enabled := True\<rparr>) \<and>
           settings (sched w') = (mergeSettings (settings (sched w)) upd)\<lparr>enabled := False\<rparr> \<and>
           scheduledTask (sched w') = None \<and> dbFailure w' = None \<and>
           heapSuffices w' = heapSuffices w"
  using assms
  by (simp add: startScheduler_def saveSchedulerState_def stopScheduler_def emitS_def Let_def)

lemma getStatus_disabled:
  assumes "\<not> alreadyEnabled w"
  shows "\<exists>st w'. getStatus now w = Returns st w' \<and> \<not> st_enabled st \<and>
           schedulerState w' = schedulerState w \<and> dbFailure w' = dbFailure w \<and>
           heapSuffices w' = heapSuffices w \<and>
           settings (sched w') = (settings (sched w))\<lparr>enabled := False\<rparr>"
  using assms
  by (simp add: getStatus_def alreadyEnabled_def getNextRunTime_def getNextRunTimes_def Let_def)

lemma getStatus_enabled:
  assumes "alreadyEnabled w" and "outlivesStatus w"
  shows "\<exists>st w'. getStatus now w = Returns st w' \<and> st_enabled st \<and>
           schedulerState w' = schedulerState w \<and> dbFailure w' = dbFailure w \<and>
           settings (sched w') = (settings (sched w))\<lparr>enabled := True\<rparr>"
proof -
  have "scheduledTask (sched w) = None \<or>
        getScheduleTimes (heapSuffices w) (intervalHours (settings (sched w))) \<noteq> Aborted"
    using assms(2) by (auto simp: outlivesStatus_def getScheduleTimes_Aborted)
  then show ?thesis
    using assms(1)
    by (auto simp: getStatus_def alreadyEnabled_def getNextRunTime_def getNextRunTimes_def Let_def
        split: option.splits completion.splits)
qed

lemma start_route_rejects:
  assumes "dbFailure w = None"
    and "\<not> passesRange 1 12 (parseInt (orDefault (JNum (units ''4'')) (intervalHoursField body))) \<or>
         \<not> passesRange 5 100 (parseInt (orDefault (JNum (units ''10'')) (batchSizeField body)))"
  shows "startSchedulerRoute now body w =
           Some (Response 400 (ErrorBody ''Interval hours must be between 1 and 12''), w) \<or>
         startSchedulerRoute now body w =
           Some (Response 400 (ErrorBody ''Batch size must be between 5 and 100''), w)"
  using assms
  by (auto simp: startSchedulerRoute_def testConnection_def passesRange_def Let_def)

lemma start_route_already_running:
  assumes "dbFailure w = None"
    and "passesRange 1 12 (parseInt (orDefault (JNum (units ''4'')) (intervalHoursField body)))"
    and "passesRange 5 100 (parseInt (orDefault (JNum (units ''10'')) (batchSizeField body)))"
    and "alreadyEnabled w"
    and "outlivesStatus w"
  shows "\<exists>w'. startSchedulerRoute now body w =
                Some (Response 400 (ErrorBody ''Scheduler is already running''), w') \<and>
              schedulerState w' = schedulerState w"
proof -
  from getStatus_enabled[OF assms(4,5), of now] obtain st w' where
    "getStatus now w = Returns st w'" "st_enabled st" "schedulerState w' = schedulerState w"
    by blast
  then show ?thesis
    using assms(1-3)
    by (simp add: startSchedulerRoute_def testConnection_def passesRange_def Let_def)
qed

lemma start_route_accepts:
  assumes "dbFailure w = None"
    and "passesRange 1 12 (parseInt (orDefault (JNum (units ''4'')) (intervalHoursField body)))"
    and "passesRange 5 100 (parseInt (orDefault (JNum (units ''10'')) (batchSizeField body)))"
    and "\<not> alreadyEnabled w"
  shows "\<exists>w' hs. startSchedulerRoute now body w =
                    Some (Response 200 (StartedBody (settings (sched w')) None []), w') \<and>
           schedulerState w' =
             Some \<lparr>intervalHours = parseInt (orDefault (JNum (units ''4'')) (intervalHoursField body)),
                   batchSize = parseInt (orDefault (JNum (units ''10'')) (batchSizeField body)),
                   includeInactive = toBoolean (orDefault (JBool False) (includeInactiveField body)),
                   enabled = True\<rparr> \<and>
           settings (sched w') =
             \<lparr>intervalHours = parseInt (orDefault (JNum (units ''4'')) (intervalHoursField body)),
              batchSize = parseInt (orDefault (JNum (units ''10'')) (batchSizeField body)),
              includeInactive = toBoolean (orDefault (JBool False) (includeInactiveField body)),
              enabled = False\<rparr> \<and>
           scheduledTask (sched w') = Some hs \<and>
           getScheduleTimes (heapSuffices w)
             (parseInt (orDefault (JNum (units ''4'')) (intervalHoursField body))) = Normal hs \<and>
           dbFailure w' = None \<and> heapSuffices w' = heapSuffices w"
proof -
  let ?h = "parseInt (orDefault (JNum (units ''4'')) (intervalHoursField body))"
  let ?n = "parseInt (orDefault (JNum (units ''10'')) (batchSizeField body))"
  let ?upd = "\<lparr>new_intervalHours = Some ?h, new_batchSize = Some ?n,
               new_includeInactive = Some (toBoolean (orDefault (JBool False) (includeInactiveField body))),
               new_enabled = None\<rparr>"
  from getStatus_disabled[OF assms(4), of now] obtain st w1 where
    gs: "getStatus now w = Returns st w1" "\<not> st_enabled st" and db1: "dbFailure w1 = dbFailure w"
    and hp1: "heapSuffices w1 = heapSuffices w"
    and s1: "settings (sched w1) = (settings (sched w))\<lparr>enabled := False\<rparr>"
    by blast
  from getScheduleTimes_Normal[OF passesRange_loopEnds[OF assms(2)], of "heapSuffices w"]
  obtain hs where hs: "getScheduleTimes (heapSuffices w) ?h = Normal hs"
    by blast
  have "getScheduleTimes (heapSuffices w1) (intervalHours (mergeSettings (settings (sched w1)) ?upd)) = Normal hs"
    using hs hp1 by (simp add: mergeSettings_def)
  from startScheduler_returns[OF _ this, of now] db1 assms(1) obtain w2 where
    ss: "startScheduler now ?upd w1 = Returns (None, []) w2"
    and p: "schedulerState w2 = Some ((mergeSettings (settings (sched w1)) ?upd)\<lparr>enabled := True\<rparr>)"
    and m: "settings (sched w2) = (mergeSettings (settings (sched w1)) ?upd)\<lparr>enabled := False\<rparr>"
    and t: "scheduledTask (sched w2) = Some hs"
    and d2: "dbFailure w2 = None" and hp2: "heapSuffices w2 = heapSuffices w1"
    by auto
  have r: "startSchedulerRoute now body w = Some (Response 200 (StartedBody (settings (sched w2)) None []), w2)"
    using assms(1-3) gs ss
    by (simp add: startSchedulerRoute_def testConnection_def passesRange_def Let_def)
  show ?thesis
    using r p m t hs d2 hp2 hp1 by (simp add: mergeSettings_def)
qed

text \<open>
  Claim C8, as the code has it. When the database connection test passes and both values
  parse to numbers: a request with \<open>intervalHours\<close> outside 1 to 12 or \<open>batchSize\<close>
  outside 5 to 100 is answered with status 400 and a validation message, and the state
  is left as it was; a request within both bounds is answered with status 200 and
  \<open>enabled = true\<close> is persisted with its settings when the scheduler is not reported as
  enabled; when it is, the request is answered with status 400 and
  \<open>Scheduler is already running\<close>, and the persisted state is left as it was (in a
  process that outlives the status query).
\<close>

theorem start_validation:
  assumes "dbFailure w = None"
    and "parseInt (orDefault (JNum (units ''4'')) (intervalHoursField body)) = Num h"
    and "parseInt (orDefault (JNum (units ''10'')) (batchSizeField body)) = Num n"
  shows "(h < 1 \<or> 12 < h \<or> n < 5 \<or> 100 < n \<longrightarrow>
            startSchedulerRoute now body w =
              Some (Response 400 (ErrorBody ''Interval hours must be between 1 and 12''), w) \<or>
            startSchedulerRoute now body w =
              Some (Response 400 (ErrorBody ''Batch size must be between 5 and 100''), w)) \<and>
         (1 \<le> h \<and> h \<le> 12 \<and> 5 \<le> n \<and> n \<le> 100 \<and> \<not> alreadyEnabled w \<longrightarrow>
            (\<exists>st w'. startSchedulerRoute now body w = Some (Response 200 (StartedBody st None []), w') \<and>
               schedulerState w' =
                 Some \<lparr>intervalHours = Num h, batchSize = Num n,
                       includeInactive = toBoolean (orDefault (JBool False) (includeInactiveField body)),
                       enabled = True\<rparr>)) \<and>
         (1 \<le> h \<and> h \<le> 12 \<and> 5 \<le> n \<and> n \<le> 100 \<and> alreadyEnabled w \<and> outlivesStatus w \<longrightarrow>
            (\<exists>w'. startSchedulerRoute now body w =
                     Some (Response 400 (ErrorBody ''Scheduler is already running''), w') \<and>
                   schedulerState w' = schedulerState w))"
proof (intro conjI impI)
  assume "h < 1 \<or> 12 < h \<or> n < 5 \<or> 100 < n"
  then have "\<not> passesRange 1 12 (parseInt (orDefault (JNum (units ''4'')) (intervalHoursField body))) \<or>
             \<not> passesRange 5 100 (parseInt (orDefault (JNum (units ''10'')) (batchSizeField body)))"
    using assms(2,3) by (auto simp: passesRange_def)
  from start_route_rejects[OF assms(1) this]
  show "startSchedulerRoute now body w =
              Some (Response 400 (ErrorBody ''Interval hours must be between 1 and 12''), w) \<or>
        startSchedulerRoute now body w =
              Some (Response 400 (ErrorBody ''Batch size must be between 5 and 100''), w)" .
next
  assume a: "1 \<le> h \<and> h \<le> 12 \<and> 5 \<le> n \<and> n \<le> 100 \<and> \<not> alreadyEnabled w"
  then have p: "passesRange 1 12 (parseInt (orDefault (JNum (units ''4'')) (intervalHoursField body)))"
      "passesRange 5 100 (parseInt (orDefault (JNum (units ''10'')) (batchSizeField body)))"
    using assms(2,3) by (auto simp: passesRange_def)
  from a have ne: "\<not> alreadyEnabled w" by simp
  from start_route_accepts[OF assms(1) p ne, of now]
  show "\<exists>st w'. startSchedulerRoute now body w = Some (Response 200 (StartedBody st None []), w') \<and>
               schedulerState w' =
                 Some \<lparr>intervalHours = Num h, batchSize = Num n,
                       includeInactive = toBoolean (orDefault (JBool False) (includeInactiveField body)),
                       enabled = True\<rparr>"
    using assms(2,3) by auto
next
  assume a: "1 \<le> h \<and> h \<le> 12 \<and> 5 \<le> n \<and> n \<le> 100 \<and> alreadyEnabled w \<and> outlivesStatus w"
  then have p: "passesRange 1 12 (parseInt (orDefault (JNum (units ''4'')) (intervalHoursField body)))"
      "passesRange 5 100 (parseInt (orDefault (JNum (units ''10'')) (batchSizeField body)))"
    using assms(2,3) by (auto simp: passesRange_def)
  from a have e: "alreadyEnabled w" and t: "outlivesStatus w" by simp_all
  from start_route_already_running[OF assms(1) p e t, of now]
  show "\<exists>w'. startSchedulerRoute now body w =
                     Some (Response 400 (ErrorBody ''Scheduler is already running''), w') \<and>
                   schedulerState w' = schedulerState w" .
qed

lemma goodBody_parses:
  "parseInt (orDefault (JNum (units ''4'')) (intervalHoursField goodBody)) = Num 6"
  "parseInt (orDefault (JNum (units ''10'')) (batchSizeField goodBody)) = Num 50"
  using parseInt_examples by (simp_all add: goodBody_def orDefault_def)

theorem start_validation_witness:
  "\<exists>st w'. startSchedulerRoute noon goodBody idleWorld = Some (Response 200 (StartedBody st None []), w') \<and>
     schedulerState w' =
       Some \<lparr>intervalHours = Num 6, batchSize = Num 50, includeInactive = False, enabled = True\<rparr>"
proof -
  have d: "dbFailure idleWorld = None" by (simp add: idleWorld_def)
  have e: "\<not> alreadyEnabled idleWorld"
    by (simp add: alreadyEnabled_def getSchedulerState_def idleWorld_def defaultSettings_def)
  from start_validation[OF d goodBody_parses, of noon] e
  show ?thesis by (simp add: goodBody_def orDefault_def)
qed

text \<open>
  Claim C8 as stated fails: a request within both bounds (6 hours, batch size 50) to a
  scheduler that is enabled with 4 hours and batch size 75 is rejected, and the
  persisted row keeps the old settings.
\<close>

theorem start_while_enabled_counterexample:
  "map_option fst (startSchedulerRoute noon goodBody enabledWorld) =
     Some (Response 400 (ErrorBody ''Scheduler is already running'')) \<and>
   map_option (\<lambda>x. schedulerState (snd x)) (startSchedulerRoute noon goodBody enabledWorld) =
     Some (Some \<lparr>intervalHours = Num 4, batchSize = Num 75, includeInactive = False,
                 enabled = True\<rparr>)"
proof -
  have h: "passesRange 1 12 (parseInt (orDefault (JNum (units ''4'')) (intervalHoursField goodBody)))"
    unfolding goodBody_parses by (simp add: passesRange_def)
  have n: "passesRange 5 100 (parseInt (orDefault (JNum (units ''10'')) (batchSizeField goodBody)))"
    unfolding goodBody_parses by (simp add: passesRange_def)
  have d: "dbFailure enabledWorld = None" by (simp add: enabledWorld_def idleWorld_def)
  have e: "alreadyEnabled enabledWorld"
    by (simp add: alreadyEnabled_def getSchedulerState_def enabledWorld_def idleWorld_def
        fourHourSettings_def)
  have t: "outlivesStatus enabledWorld"
    by (simp add: outlivesStatus_def enabledWorld_def idleWorld_def)
  from start_route_already_running[OF d h n e t, of noon] obtain w' where
    "startSchedulerRoute noon goodBody enabledWorld =
       Some (Response 400 (ErrorBody ''Scheduler is already running''), w')"
    "schedulerState w' = schedulerState enabledWorld"
    by blast
  then show ?thesis
    by (simp add: enabledWorld_def idleWorld_def fourHourSettings_def)
qed

subsection \<open>Fire times\<close>

text \<open>
  For a scheduler that is enabled and armed with an interval of at least one hour,
  \<open>getNextRunTime\<close> returns a time at minute zero of one of the hours of the cron
  expression.
\<close>

lemma getNextRunTime_cron_hour:
  assumes iv: "intervalHours (settings (sched w)) = Num i" and pos: "1 \<le> i"
    and en: "enabled (settings (sched w))" and armed: "scheduledTask (sched w) \<noteq> None"
  shows "\<exists>d hs. getNextRunTime now w = Some (Some (Valid d)) \<and>
                getScheduleTimes (heapSuffices w) (Num i) = Normal hs \<and>
                d_hour d \<in> set hs \<and> d_minute d = 0"
proof -
  from getScheduleTimes_positive[OF pos, of "heapSuffices w"] obtain n where
    ts: "getScheduleTimes (heapSuffices w) (Num i) = Normal (map (\<lambda>k. int k * i) [0..<Suc n])"
    and b: "\<forall>k<Suc n. int k * i < 24"
    by blast
  let ?ts = "map (\<lambda>k. int k * i) [0..<Suc n]"
  let ?P = "\<lambda>hour. hour > d_hour now \<or> (hour = d_hour now \<and> d_minute now = 0)"
  have hd: "?ts = 0 # map (\<lambda>k. int (Suc k) * i) [0..<n]"
    by (simp only: map_upt_Suc0) simp
  have range: "0 \<le> hour \<and> hour < 24" if "hour \<in> set ?ts" for hour
  proof -
    from that have "hour \<in> (\<lambda>k. int k * i) ` {0..<Suc n}" by (simp del: upt_Suc)
    then obtain k where k: "k < Suc n" "hour = int k * i" by auto
    with b have "hour < 24" by blast
    moreover have "0 \<le> hour" using k pos by simp
    ultimately show ?thesis by simp
  qed
  show ?thesis
  proof (cases "find ?P ?ts")
    case None
    let ?d = "now\<lparr>d_day := d_day now + 1 + 0 div 24, d_hour := 0 mod 24, d_minute := 0,
                   d_second := 0, d_ms := 0\<rparr>"
    have "getNextRunTime now w = Some (Some (Valid ?d))"
      using en armed None iv ts by (simp add: getNextRunTime_def hd del: upt_Suc)
    moreover have "d_hour ?d \<in> set ?ts" by (simp add: hd del: upt_Suc)
    ultimately show ?thesis using ts by (intro exI[of _ ?d] exI[of _ ?ts]) simp
  next
    case (Some hour)
    then have mem: "hour \<in> set ?ts"
      by (metis find_Some_iff nth_mem)
    from range[OF mem] have hm: "hour mod 24 = hour" by simp
    let ?d = "now\<lparr>d_day := d_day now + hour div 24, d_hour := hour mod 24, d_minute := 0,
                   d_second := 0, d_ms := 0\<rparr>"
    have "getNextRunTime now w = Some (Some (Valid ?d))"
      using en armed Some iv ts by (simp add: getNextRunTime_def del: upt_Suc)
    moreover have "d_hour ?d \<in> set ?ts" using mem hm by simp
    ultimately show ?thesis using ts by (intro exI[of _ ?d] exI[of _ ?ts]) simp
  qed
qed

text \<open>
  When the interval divides 24, every further entry of \<open>getNextRunTimes\<close> is on one of
  these hours as well: adding the interval to a multiple of it below 24 gives a multiple
  below 24, or 24, which \<open>setHours\<close> carries into the next day as hour 0.
\<close>

lemma upcoming_cron_hours:
  assumes pos: "1 \<le> i" and dv: "i dvd 24"
  shows "0 \<le> d_hour d \<and> d_hour d < 24 \<and> i dvd d_hour d \<Longrightarrow>
         list_all (\<lambda>t. \<exists>d'. t = Valid d' \<and> 0 \<le> d_hour d' \<and> d_hour d' < 24 \<and> i dvd d_hour d' \<and>
                              d_minute d' = d_minute d)
           (upcoming n (Num i) (Valid d))"
proof (induction n arbitrary: d)
  case 0
  then show ?case by simp
next
  case (Suc n)
  let ?d = "d\<lparr>d_day := d_day d + (d_hour d + i) div 24, d_hour := (d_hour d + i) mod 24\<rparr>"
  have nx: "setHours (Valid d) (js_plus (getHours (Valid d)) (Num i)) = Valid ?d" by simp
  have "i dvd d_hour d + i" using Suc.prems by simp
  then have "i dvd (d_hour d + i) mod 24" using dv by (simp add: dvd_mod)
  then have ok: "0 \<le> d_hour ?d \<and> d_hour ?d < 24 \<and> i dvd d_hour ?d" by simp
  from Suc.IH[OF ok] have
    "list_all (\<lambda>t. \<exists>d'. t = Valid d' \<and> 0 \<le> d_hour d' \<and> d_hour d' < 24 \<and> i dvd d_hour d' \<and>
                         d_minute d' = d_minute d)
       (upcoming n (Num i) (Valid ?d))"
    by simp
  then show ?case using ok by (simp add: Let_def)
qed

lemma getNextRunTimes_cron_hours:
  assumes iv: "intervalHours (settings (sched w)) = Num i" and pos: "1 \<le> i" and dv: "i dvd 24"
    and en: "enabled (settings (sched w))" and armed: "scheduledTask (sched w) \<noteq> None"
  shows "\<exists>ts hs. getNextRunTimes now n w = Some ts \<and> length ts = max 1 n \<and>
                 getScheduleTimes (heapSuffices w) (Num i) = Normal hs \<and>
                 (\<forall>t \<in> set ts. \<exists>d. t = Valid d \<and> d_hour d \<in> set hs \<and> d_minute d = 0)"
proof -
  from getNextRunTime_cron_hour[OF iv pos en armed, of now] obtain d hs where
    f: "getNextRunTime now w = Some (Some (Valid d))"
    and hs: "getScheduleTimes (heapSuffices w) (Num i) = Normal hs"
    and dh: "d_hour d \<in> set hs" and dm: "d_minute d = 0"
    by blast
  note ch = cron_hours[OF pos hs]
  from dh have ok: "0 \<le> d_hour d \<and> d_hour d < 24 \<and> i dvd d_hour d" unfolding ch by simp
  have r: "getNextRunTimes now n w = Some (Valid d # upcoming (n - 1) (Num i) (Valid d))"
    using en armed f iv by (simp add: getNextRunTimes_def)
  have len: "length (upcoming m (Num i) t) = m" for m t
    by (induction m arbitrary: t) (simp_all add: Let_def)
  have "\<forall>t \<in> set (upcoming (n - 1) (Num i) (Valid d)).
          \<exists>d'. t = Valid d' \<and> d_hour d' \<in> set hs \<and> d_minute d' = 0"
    using upcoming_cron_hours[OF pos dv ok, of "n - 1"] dm unfolding ch
    by (auto simp: list_all_iff)
  then have "\<forall>t \<in> set (Valid d # upcoming (n - 1) (Num i) (Valid d)).
          \<exists>d'. t = Valid d' \<and> d_hour d' \<in> set hs \<and> d_minute d' = 0"
    using dh dm by simp
  moreover have "length (Valid d # upcoming (n - 1) (Num i) (Valid d)) = max 1 n"
    by (simp add: len max_def)
  ultimately show ?thesis using r hs by blast
qed

lemma fiveHourBody_parses:
  "parseInt (orDefault (JNum (units ''4'')) (intervalHoursField fiveHourBody)) = Num 5"
  "parseInt (orDefault (JNum (units ''10'')) (batchSizeField fiveHourBody)) = Num 75"
  "toBoolean (orDefault (JBool False) (includeInactiveField fiveHourBody)) = False"
  by code_simp+

text \<open>
  Claim C9 does not hold of the code. A start request with an interval of five hours is
  accepted and arms the timer with the hours 0, 5, 10, 15 and 20 of the cron expression
  \<open>0 0,5,10,15,20 * * *\<close>. At 16:30 the status reports the next fire time 20:00, which
  is one of these hours, and the upcoming fire times 20:00, then 01:00, 06:00, 11:00 and
  16:00 of the next day: \<open>getNextRunTimes\<close> adds the interval to the hour of the previous
  entry, and none of its last four entries is an hour at which the timer fires, five not
  being a divisor of 24.
\<close>

theorem upcoming_times_leave_cron_hours:
  "map_option fst (startSchedulerRoute noon fiveHourBody idleWorld) =
     Some (Response 200
             (StartedBody \<lparr>intervalHours = Num 5, batchSize = Num 75, includeInactive = False,
                            enabled = False\<rparr> None [])) \<and>
   (case startSchedulerRoute noon fiveHourBody idleWorld of
      None \<Rightarrow> False
    | Some (r, w) \<Rightarrow>
        scheduledTask (sched w) = Some [0, 5, 10, 15, 20] \<and>
        (case getStatus halfPastFour w of
           Returns st w' \<Rightarrow>
             st_enabled st \<and> st_isRunning st \<and> intervalHours (st_settings st) = Num 5 \<and>
             st_nextRun st =
               Some (Valid \<lparr>d_day = 0, d_hour = 20, d_minute = 0, d_second = 0, d_ms = 0\<rparr>) \<and>
             st_upcomingSchedules st =
               [Valid \<lparr>d_day = 0, d_hour = 20, d_minute = 0, d_second = 0, d_ms = 0\<rparr>,
                Valid \<lparr>d_day = 1, d_hour = 1, d_minute = 0, d_second = 0, d_ms = 0\<rparr>,
                Valid \<lparr>d_day = 1, d_hour = 6, d_minute = 0, d_second = 0, d_ms = 0\<rparr>,
                Valid \<lparr>d_day = 1, d_hour = 11, d_minute = 0, d_second = 0, d_ms = 0\<rparr>,
                Valid \<lparr>d_day = 1, d_hour = 16, d_minute = 0, d_second = 0, d_ms = 0\<rparr>]
         | Throws e w' \<Rightarrow> False
         | Aborts \<Rightarrow> False))"
proof -
  have d: "dbFailure idleWorld = None" by (simp add: idleWorld_def)
  have e: "\<not> alreadyEnabled idleWorld"
    by (simp add: alreadyEnabled_def getSchedulerState_def idleWorld_def defaultSettings_def)
  have p1: "passesRange 1 12 (parseInt (orDefault (JNum (units ''4'')) (intervalHoursField fiveHourBody)))"
    unfolding fiveHourBody_parses by (simp add: passesRange_def)
  have p2: "passesRange 5 100 (parseInt (orDefault (JNum (units ''10'')) (batchSizeField fiveHourBody)))"
    unfolding fiveHourBody_parses by (simp add: passesRange_def)
  from start_route_accepts[OF d p1 p2 e, of noon] obtain w hs where
    r: "startSchedulerRoute noon fiveHourBody idleWorld =
          Some (Response 200 (StartedBody (settings (sched w)) None []), w)"
    and p: "schedulerState w = Some \<lparr>intervalHours = Num 5, batchSize = Num 75,
                                      includeInactive = False, enabled = True\<rparr>"
    and m: "settings (sched w) = \<lparr>intervalHours = Num 5, batchSize = Num 75,
                                   includeInactive = False, enabled = False\<rparr>"
    and t: "scheduledTask (sched w) = Some hs"
    and c: "getScheduleTimes (heapSuffices idleWorld) (Num 5) = Normal hs"
    and db: "dbFailure w = None"
    unfolding fiveHourBody_parses by blast
  have hs: "hs = [0, 5, 10, 15, 20]" using c by (simp add: fiveHour_cron)
  let ?w1 = "w\<lparr>sched := (sched w)\<lparr>settings := (settings (sched w))\<lparr>enabled := True\<rparr>\<rparr>\<rparr>"
  have n: "getNextRunTime halfPastFour ?w1 =
             Some (Some (Valid \<lparr>d_day = 0, d_hour = 20, d_minute = 0, d_second = 0, d_ms = 0\<rparr>))"
    using m t by (simp add: getNextRunTime_def fiveHour_cron halfPastFour_def)
  have u: "getNextRunTimes halfPastFour 5 ?w1 =
             Some [Valid \<lparr>d_day = 0, d_hour = 20, d_minute = 0, d_second = 0, d_ms = 0\<rparr>,
                   Valid \<lparr>d_day = 1, d_hour = 1, d_minute = 0, d_second = 0, d_ms = 0\<rparr>,
                   Valid \<lparr>d_day = 1, d_hour = 6, d_minute = 0, d_second = 0, d_ms = 0\<rparr>,
                   Valid \<lparr>d_day = 1, d_hour = 11, d_minute = 0, d_second = 0, d_ms = 0\<rparr>,
                   Valid \<lparr>d_day = 1, d_hour = 16, d_minute = 0, d_second = 0, d_ms = 0\<rparr>]"
    using m t n by (simp add: getNextRunTimes_def eval_nat_numeral Let_def)
  have g: "getStatus halfPastFour w =
             Returns \<lparr>st_enabled = True, st_isRunning = True, st_settings = settings (sched ?w1),
                      st_currentJob = currentJob (sched ?w1),
                      st_runningJobs = map snd (runningJobs (sched ?w1)),
                      st_nextRun = Some (Valid \<lparr>d_day = 0, d_hour = 20, d_minute = 0,
                                                 d_second = 0, d_ms = 0\<rparr>),
                      st_upcomingSchedules =
                        [Valid \<lparr>d_day = 0, d_hour = 20, d_minute = 0, d_second = 0, d_ms = 0\<rparr>,
                         Valid \<lparr>d_day = 1, d_hour = 1, d_minute = 0, d_second = 0, d_ms = 0\<rparr>,
                         Valid \<lparr>d_day = 1, d_hour = 6, d_minute = 0, d_second = 0, d_ms = 0\<rparr>,
                         Valid \<lparr>d_day = 1, d_hour = 11, d_minute = 0, d_second = 0, d_ms = 0\<rparr>,
                         Valid \<lparr>d_day = 1, d_hour = 16, d_minute = 0, d_second = 0, d_ms = 0\<rparr>]\<rparr>
                     ?w1"
    unfolding getStatus_def Let_def using p db t n u
    by (simp add: getSchedulerState_def)
  show ?thesis
    unfolding r using m t hs g by simp
qed

subsection \<open>Values that do not parse to a number\<close>

text \<open>The partial settings that \<open>updateSettings\<close> of the control surface builds from the
  request body.\<close>

definition requestedUpdate :: "request_body \<Rightarrow> settings_update" where
  "requestedUpdate body =
     \<lparr>new_intervalHours = map_option parseInt (intervalHoursField body),
      new_batchSize = map_option parseInt (batchSizeField body),
      new_includeInactive = map_option toBoolean (includeInactiveField body),
      new_enabled = None\<rparr>"

text \<open>A field of the body that is present and that \<open>parseInt\<close> maps to \<open>NaN\<close>. An absent
  field is left alone by the update handler and replaced by a numeric default by the
  start handler.\<close>

definition parsesToNaN :: "jsval option \<Rightarrow> bool" where
  "parsesToNaN field = (case field of None \<Rightarrow> False | Some v \<Rightarrow> parseInt v = NaN)"

text \<open>The states in which the process outlives the restart of the timer by an update:
  the heap suffices, or the scheduler is not enabled, or the update brings an interval,
  or the loop over the interval in force ends by its condition.\<close>

definition outlivesRestart :: "request_body \<Rightarrow> world \<Rightarrow> bool" where
  "outlivesRestart body w =
     (heapSuffices w \<or> \<not> enabled (settings (sched w)) \<or> intervalHoursField body \<noteq> None \<or>
      loopEnds (intervalHours (settings (sched w))))"

lemma parsesToNaN_hours:
  "parsesToNaN field \<longleftrightarrow> parseInt (orDefault (JNum (units ''4'')) field) = NaN"
  by (cases field) (simp_all add: parsesToNaN_def orDefault_def parseInt_defaults)

lemma parsesToNaN_size:
  "parsesToNaN field \<longleftrightarrow> parseInt (orDefault (JNum (units ''10'')) field) = NaN"
  by (cases field) (simp_all add: parsesToNaN_def orDefault_def parseInt_defaults)

lemma passesRange_NaN: "passesRange lo hi NaN"
  by (simp add: passesRange_def)

lemma mergeSettings_asUpdate: "mergeSettings cur (asUpdate st) = st"
  by (simp add: mergeSettings_def asUpdate_def)

lemma enabled_update_same: "enabled st = b \<Longrightarrow> st\<lparr>enabled := b\<rparr> = st"
  by (cases st) simp

text \<open>A validation message is the answer only when the check of its field fails.\<close>

lemma start_route_hours_error:
  assumes "map_option fst (startSchedulerRoute now body w) =
             Some (Response 400 (ErrorBody ''Interval hours must be between 1 and 12''))"
  shows "\<not> passesRange 1 12 (parseInt (orDefault (JNum (units ''4'')) (intervalHoursField body)))"
  using assms
  by (auto simp: startSchedulerRoute_def passesRange_def Let_def
      split: if_splits outcome.splits prod.splits)

lemma start_route_size_error:
  assumes "map_option fst (startSchedulerRoute now body w) =
             Some (Response 400 (ErrorBody ''Batch size must be between 5 and 100''))"
  shows "\<not> passesRange 5 100 (parseInt (orDefault (JNum (units ''10'')) (batchSizeField body)))"
  using assms
  by (auto simp: startSchedulerRoute_def passesRange_def Let_def
      split: if_splits outcome.splits prod.splits)

lemma update_route_hours_error:
  assumes "map_option fst (updateSettingsRoute now body w) =
             Some (Response 400 (ErrorBody ''Interval hours must be between 1 and 12''))"
  shows "\<exists>v. intervalHoursField body = Some v \<and> \<not> passesRange 1 12 (parseInt v)"
  using assms
  by (auto simp: updateSettingsRoute_def passesRange_def Let_def
      split: if_splits outcome.splits prod.splits option.splits)

lemma update_route_size_error:
  assumes "map_option fst (updateSettingsRoute now body w) =
             Some (Response 400 (ErrorBody ''Batch size must be between 5 and 100''))"
  shows "\<exists>v. batchSizeField body = Some v \<and> \<not> passesRange 5 100 (parseInt v)"
  using assms
  by (auto simp: updateSettingsRoute_def passesRange_def Let_def
      split: if_splits outcome.splits prod.splits option.splits)

lemma updateSettings_returns:
  assumes db: "dbFailure w = None"
    and ab: "enabled (settings (sched w)) \<longrightarrow>
               heapSuffices w \<or> loopEnds (intervalHours (mergeSettings (settings (sched w)) upd))"
    and ne: "new_enabled upd = None"
  shows "\<exists>w'. updateSettings now upd w = Returns () w' \<and>
           schedulerState w' = Some (mergeSettings (settings (sched w)) upd) \<and>
           settings (sched w') = (mergeSettings (settings (sched w)) upd)\<lparr>enabled := False\<rparr> \<and>
           dbFailure w' = None \<and>
           (enabled (settings (sched w)) \<longrightarrow> outlivesStatus w')"
proof -
  let ?m = "mergeSettings (settings (sched w)) upd"
  have en: "enabled ?m = enabled (settings (sched w))"
    using ne by (simp add: mergeSettings_def)
  let ?w3 = "emitS (SettingsUpdated ?m)
               (w\<lparr>sched := (sched w)\<lparr>settings := ?m\<rparr>, schedulerState := Some ?m\<rparr>)"
  have w3: "dbFailure ?w3 = None" "settings (sched ?w3) = ?m" "schedulerState ?w3 = Some ?m"
    "heapSuffices ?w3 = heapSuffices w"
    using db by (simp_all add: emitS_def)
  have mm: "mergeSettings (settings (sched ?w3)) (asUpdate (settings (sched ?w3))) = ?m"
    by (simp add: mergeSettings_asUpdate emitS_def)
  show ?thesis
  proof (cases "enabled (settings (sched w))")
    case False
    have "updateSettings now upd w = Returns () ?w3"
      using db False en by (simp add: updateSettings_def saveSchedulerState_def Let_def emitS_def)
    moreover have "?m\<lparr>enabled := False\<rparr> = ?m"
      using False en by (intro enabled_update_same) simp
    ultimately show ?thesis using w3 False by simp
  next
    case True
    have mt: "?m\<lparr>enabled := True\<rparr> = ?m" using True en by (intro enabled_update_same) simp
    from ab True have ok: "heapSuffices w \<or> loopEnds (intervalHours ?m)" by simp
    then have na: "getScheduleTimes (heapSuffices w) (intervalHours ?m) \<noteq> Aborted"
      by (simp add: getScheduleTimes_Aborted)
    have fin: "\<exists>w'. updateSettings now upd w = Returns () w' \<and>
                 schedulerState w' = Some ?m \<and> settings (sched w') = ?m\<lparr>enabled := False\<rparr> \<and>
                 dbFailure w' = None \<and> outlivesStatus w'"
      if ss: "startScheduler now (asUpdate (settings (sched ?w3))) ?w3 = Returns (None, []) w4 \<or>
              startScheduler now (asUpdate (settings (sched ?w3))) ?w3 = Throws e w4"
        and p: "schedulerState w4 =
                  Some ((mergeSettings (settings (sched ?w3)) (asUpdate (settings (sched ?w3))))\<lparr>enabled := True\<rparr>)"
        and m: "settings (sched w4) =
                  (mergeSettings (settings (sched ?w3)) (asUpdate (settings (sched ?w3))))\<lparr>enabled := False\<rparr>"
        and d: "dbFailure w4 = None" and hp: "heapSuffices w4 = heapSuffices w"
      for w4 e
    proof -
      have p': "schedulerState w4 = Some ?m"
        using p mt by (simp add: mergeSettings_asUpdate emitS_def)
      have m': "settings (sched w4) = ?m\<lparr>enabled := False\<rparr>"
        using m by (simp add: mergeSettings_asUpdate emitS_def)
      have "updateSettings now upd w = Returns () w4"
        using db True en ss
        by (auto simp: updateSettings_def saveSchedulerState_def Let_def emitS_def)
      moreover have "outlivesStatus w4"
        using ok hp m' by (auto simp: outlivesStatus_def)
      ultimately show ?thesis using p' m' d by blast
    qed
    show ?thesis
    proof (cases "getScheduleTimes (heapSuffices w) (intervalHours ?m)")
      case (Normal hs)
      then have "getScheduleTimes (heapSuffices ?w3)
                   (intervalHours (mergeSettings (settings (sched ?w3)) (asUpdate (settings (sched ?w3)))))
                 = Normal hs"
        by (simp add: mergeSettings_asUpdate emitS_def)
      from startScheduler_returns[OF w3(1) this, of now] obtain w4 where
        "startScheduler now (asUpdate (settings (sched ?w3))) ?w3 = Returns (None, []) w4"
        "schedulerState w4 =
           Some ((mergeSettings (settings (sched ?w3)) (asUpdate (settings (sched ?w3))))\<lparr>enabled := True\<rparr>)"
        "settings (sched w4) =
           (mergeSettings (settings (sched ?w3)) (asUpdate (settings (sched ?w3))))\<lparr>enabled := False\<rparr>"
        "dbFailure w4 = None" "heapSuffices w4 = heapSuffices ?w3"
        by blast
      then show ?thesis using fin[of w4] True w3(4) by simp
    next
      case (Thrown e)
      then have "getScheduleTimes (heapSuffices ?w3)
                   (intervalHours (mergeSettings (settings (sched ?w3)) (asUpdate (settings (sched ?w3)))))
                 = Thrown e"
        by (simp add: mergeSettings_asUpdate emitS_def)
      from startScheduler_throws[OF w3(1) this, of now] obtain w4 where
        "startScheduler now (asUpdate (settings (sched ?w3))) ?w3 = Throws e w4"
        "schedulerState w4 =
           Some ((mergeSettings (settings (sched ?w3)) (asUpdate (settings (sched ?w3))))\<lparr>enabled := True\<rparr>)"
        "settings (sched w4) =
           (mergeSettings (settings (sched ?w3)) (asUpdate (settings (sched ?w3))))\<lparr>enabled := False\<rparr>"
        "dbFailure w4 = None" "heapSuffices w4 = heapSuffices ?w3"
        by blast
      then show ?thesis using fin[of w4 e] True w3(4) by simp
    next
      case Aborted
      with na show ?thesis by simp
    qed
  qed
qed

lemma update_route_accepts:
  assumes db: "dbFailure w = None"
    and c1: "case intervalHoursField body of None \<Rightarrow> True | Some v \<Rightarrow> passesRange 1 12 (parseInt v)"
    and c2: "case batchSizeField body of None \<Rightarrow> True | Some v \<Rightarrow> passesRange 5 100 (parseInt v)"
    and ol: "outlivesRestart body w"
  shows "\<exists>nextRun upcomingSchedules w'.
           updateSettingsRoute now body w =
             Some (Response 200 (UpdatedBody (mergeSettings (settings (sched w)) (requestedUpdate body))
                                   nextRun upcomingSchedules), w') \<and>
           schedulerState w' = Some (mergeSettings (settings (sched w)) (requestedUpdate body)) \<and>
           settings (sched w') = mergeSettings (settings (sched w)) (requestedUpdate body)"
proof -
  let ?m = "mergeSettings (settings (sched w)) (requestedUpdate body)"
  have en: "enabled ?m = enabled (settings (sched w))"
    by (simp add: mergeSettings_def requestedUpdate_def)
  have ab: "enabled (settings (sched w)) \<longrightarrow> heapSuffices w \<or> loopEnds (intervalHours ?m)"
  proof (cases "intervalHoursField body")
    case None
    then have "intervalHours ?m = intervalHours (settings (sched w))"
      by (simp add: mergeSettings_def requestedUpdate_def)
    then show ?thesis using ol None by (auto simp: outlivesRestart_def)
  next
    case (Some v)
    then have "intervalHours ?m = parseInt v"
      by (simp add: mergeSettings_def requestedUpdate_def)
    moreover have "passesRange 1 12 (parseInt v)" using c1 Some by simp
    ultimately show ?thesis using passesRange_loopEnds by simp
  qed
  have ne: "new_enabled (requestedUpdate body) = None" by (simp add: requestedUpdate_def)
  from updateSettings_returns[OF db ab ne, of now] obtain w1 where
    u: "updateSettings now (requestedUpdate body) w = Returns () w1"
    and p1: "schedulerState w1 = Some ?m"
    and m1: "settings (sched w1) = ?m\<lparr>enabled := False\<rparr>"
    and d1: "dbFailure w1 = None"
    and t1: "enabled (settings (sched w)) \<longrightarrow> outlivesStatus w1"
    by blast
  have ae: "alreadyEnabled w1 = enabled ?m"
    using p1 d1 by (simp add: alreadyEnabled_def getSchedulerState_def)
  have "\<exists>st w2. getStatus now w1 = Returns st w2 \<and> schedulerState w2 = schedulerState w1 \<and>
           settings (sched w2) = (settings (sched w1))\<lparr>enabled := alreadyEnabled w1\<rparr>"
  proof (cases "alreadyEnabled w1")
    case True
    then have "outlivesStatus w1" using t1 ae en by simp
    from getStatus_enabled[OF True this, of now] True show ?thesis by auto
  next
    case False
    from getStatus_disabled[OF False, of now] False show ?thesis by auto
  qed
  then obtain st w2 where
    g: "getStatus now w1 = Returns st w2" and p2: "schedulerState w2 = schedulerState w1"
    and m2: "settings (sched w2) = (settings (sched w1))\<lparr>enabled := alreadyEnabled w1\<rparr>"
    by blast
  have m2': "settings (sched w2) = ?m"
  proof -
    have "settings (sched w2) = ?m\<lparr>enabled := enabled ?m\<rparr>"
      using m2 m1 ae by simp
    then show ?thesis by (simp add: enabled_update_same)
  qed
  have chk1: "\<not> (case map_option parseInt (intervalHoursField body) of None \<Rightarrow> False
                  | Some h \<Rightarrow> js_less h (Num 1) \<or> js_greater h (Num 12))"
    using c1 by (cases "intervalHoursField body") (simp_all add: passesRange_def)
  have chk2: "\<not> (case map_option parseInt (batchSizeField body) of None \<Rightarrow> False
                  | Some n \<Rightarrow> js_less n (Num 5) \<or> js_greater n (Num 100))"
    using c2 by (cases "batchSizeField body") (simp_all add: passesRange_def)
  have "updateSettingsRoute now body w =
          Some (Response 200 (UpdatedBody (settings (sched w2)) (st_nextRun st) (st_upcomingSchedules st)), w2)"
    using chk1 chk2 u g
    by (simp add: updateSettingsRoute_def Let_def requestedUpdate_def)
  then show ?thesis using m2' p2 p1 by auto
qed

text \<open>
  Claim C10. Both comparisons of a range check are false on \<open>NaN\<close>. A start or update
  request in which \<open>intervalHours\<close> parses to \<open>NaN\<close> is never answered with the validation
  message of the interval, and one in which \<open>batchSize\<close> parses to \<open>NaN\<close> never with the
  validation message of the batch size. With the database reachable and the check of the
  other field passed, the start request of a scheduler that is not reported as enabled
  is answered with status 200 and the \<open>NaN\<close> value is in the scheduler's settings and in
  the persisted row; the update request is answered with status 200 and the merged
  settings, \<open>NaN\<close> included, are the scheduler's settings and the persisted row (in a
  process that outlives the restart of the timer).
\<close>

theorem nan_passes_range_checks:
  assumes nan: "parsesToNaN (intervalHoursField body) \<or> parsesToNaN (batchSizeField body)"
  shows "\<not> js_less NaN (Num lo) \<and> \<not> js_greater NaN (Num hi) \<and>
         (parsesToNaN (intervalHoursField body) \<longrightarrow>
            map_option fst (startSchedulerRoute now body w) \<noteq>
              Some (Response 400 (ErrorBody ''Interval hours must be between 1 and 12'')) \<and>
            map_option fst (updateSettingsRoute now body w) \<noteq>
              Some (Response 400 (ErrorBody ''Interval hours must be between 1 and 12''))) \<and>
         (parsesToNaN (batchSizeField body) \<longrightarrow>
            map_option fst (startSchedulerRoute now body w) \<noteq>
              Some (Response 400 (ErrorBody ''Batch size must be between 5 and 100'')) \<and>
            map_option fst (updateSettingsRoute now body w) \<noteq>
              Some (Response 400 (ErrorBody ''Batch size must be between 5 and 100''))) \<and>
         (dbFailure w = None \<and>
          passesRange 1 12 (parseInt (orDefault (JNum (units ''4'')) (intervalHoursField body))) \<and>
          passesRange 5 100 (parseInt (orDefault (JNum (units ''10'')) (batchSizeField body))) \<and>
          \<not> alreadyEnabled w \<longrightarrow>
            (\<exists>w'. startSchedulerRoute now body w =
                     Some (Response 200 (StartedBody (settings (sched w')) None []), w') \<and>
               schedulerState w' =
                 Some \<lparr>intervalHours = parseInt (orDefault (JNum (units ''4'')) (intervalHoursField body)),
                       batchSize = parseInt (orDefault (JNum (units ''10'')) (batchSizeField body)),
                       includeInactive = toBoolean (orDefault (JBool False) (includeInactiveField body)),
                       enabled = True\<rparr> \<and>
               intervalHours (settings (sched w')) =
                 parseInt (orDefault (JNum (units ''4'')) (intervalHoursField body)) \<and>
               batchSize (settings (sched w')) =
                 parseInt (orDefault (JNum (units ''10'')) (batchSizeField body)) \<and>
               (intervalHours (settings (sched w')) = NaN \<or> batchSize (settings (sched w')) = NaN))) \<and>
         (dbFailure w = None \<and>
          passesRange 1 12 (parseInt (orDefault (JNum (units ''4'')) (intervalHoursField body))) \<and>
          passesRange 5 100 (parseInt (orDefault (JNum (units ''10'')) (batchSizeField body))) \<and>
          outlivesRestart body w \<longrightarrow>
            (\<exists>nextRun upcomingSchedules w'.
               updateSettingsRoute now body w =
                 Some (Response 200 (UpdatedBody (mergeSettings (settings (sched w)) (requestedUpdate body))
                                       nextRun upcomingSchedules), w') \<and>
               schedulerState w' = Some (mergeSettings (settings (sched w)) (requestedUpdate body)) \<and>
               settings (sched w') = mergeSettings (settings (sched w)) (requestedUpdate body) \<and>
               (intervalHours (settings (sched w')) = NaN \<or> batchSize (settings (sched w')) = NaN)))"
proof -
  let ?h = "parseInt (orDefault (JNum (units ''4'')) (intervalHoursField body))"
  let ?n = "parseInt (orDefault (JNum (units ''10'')) (batchSizeField body))"
  let ?m = "mergeSettings (settings (sched w)) (requestedUpdate body)"
  have nn: "?h = NaN \<or> ?n = NaN"
    using nan parsesToNaN_hours parsesToNaN_size by blast
  have a: "\<not> js_less NaN (Num lo)" by simp
  have b: "\<not> js_greater NaN (Num hi)" by simp
  have c: "parsesToNaN (intervalHoursField body) \<longrightarrow>
            map_option fst (startSchedulerRoute now body w) \<noteq>
              Some (Response 400 (ErrorBody ''Interval hours must be between 1 and 12'')) \<and>
            map_option fst (updateSettingsRoute now body w) \<noteq>
              Some (Response 400 (ErrorBody ''Interval hours must be between 1 and 12''))"
  proof (intro impI conjI)
    assume p: "parsesToNaN (intervalHoursField body)"
    then have "passesRange 1 12 ?h"
      using parsesToNaN_hours passesRange_NaN by metis
    then show "map_option fst (startSchedulerRoute now body w) \<noteq>
              Some (Response 400 (ErrorBody ''Interval hours must be between 1 and 12''))"
      using start_route_hours_error by blast
    from p have "\<forall>v. intervalHoursField body = Some v \<longrightarrow> passesRange 1 12 (parseInt v)"
      by (auto simp: parsesToNaN_def passesRange_NaN)
    then show "map_option fst (updateSettingsRoute now body w) \<noteq>
              Some (Response 400 (ErrorBody ''Interval hours must be between 1 and 12''))"
      using update_route_hours_error by blast
  qed
  have d: "parsesToNaN (batchSizeField body) \<longrightarrow>
            map_option fst (startSchedulerRoute now body w) \<noteq>
              Some (Response 400 (ErrorBody ''Batch size must be between 5 and 100'')) \<and>
            map_option fst (updateSettingsRoute now body w) \<noteq>
              Some (Response 400 (ErrorBody ''Batch size must be between 5 and 100''))"
  proof (intro impI conjI)
    assume p: "parsesToNaN (batchSizeField body)"
    then have "passesRange 5 100 ?n"
      using parsesToNaN_size passesRange_NaN by metis
    then show "map_option fst (startSchedulerRoute now body w) \<noteq>
              Some (Response 400 (ErrorBody ''Batch size must be between 5 and 100''))"
      using start_route_size_error by blast
    from p have "\<forall>v. batchSizeField body = Some v \<longrightarrow> passesRange 5 100 (parseInt v)"
      by (auto simp: parsesToNaN_def passesRange_NaN)
    then show "map_option fst (updateSettingsRoute now body w) \<noteq>
              Some (Response 400 (ErrorBody ''Batch size must be between 5 and 100''))"
      using update_route_size_error by blast
  qed
  have e: "dbFailure w = None \<and> passesRange 1 12 ?h \<and> passesRange 5 100 ?n \<and> \<not> alreadyEnabled w \<longrightarrow>
            (\<exists>w'. startSchedulerRoute now body w =
                     Some (Response 200 (StartedBody (settings (sched w')) None []), w') \<and>
               schedulerState w' =
                 Some \<lparr>intervalHours = ?h, batchSize = ?n,
                       includeInactive = toBoolean (orDefault (JBool False) (includeInactiveField body)),
                       enabled = True\<rparr> \<and>
               intervalHours (settings (sched w')) = ?h \<and> batchSize (settings (sched w')) = ?n \<and>
               (intervalHours (settings (sched w')) = NaN \<or> batchSize (settings (sched w')) = NaN))"
  proof
    assume h: "dbFailure w = None \<and> passesRange 1 12 ?h \<and> passesRange 5 100 ?n \<and> \<not> alreadyEnabled w"
    then have h1: "dbFailure w = None" and h2: "passesRange 1 12 ?h" and h3: "passesRange 5 100 ?n"
      and h4: "\<not> alreadyEnabled w" by simp_all
    from start_route_accepts[OF h1 h2 h3 h4, of now] obtain w' where
      r: "startSchedulerRoute now body w =
            Some (Response 200 (StartedBody (settings (sched w')) None []), w')"
      and p: "schedulerState w' =
                Some \<lparr>intervalHours = ?h, batchSize = ?n,
                      includeInactive = toBoolean (orDefault (JBool False) (includeInactiveField body)),
                      enabled = True\<rparr>"
      and m: "settings (sched w') =
                \<lparr>intervalHours = ?h, batchSize = ?n,
                 includeInactive = toBoolean (orDefault (JBool False) (includeInactiveField body)),
                 enabled = False\<rparr>"
      by blast
    have "intervalHours (settings (sched w')) = ?h" "batchSize (settings (sched w')) = ?n"
      unfolding m by simp_all
    with r p nn show "\<exists>w'. startSchedulerRoute now body w =
                     Some (Response 200 (StartedBody (settings (sched w')) None []), w') \<and>
               schedulerState w' =
                 Some \<lparr>intervalHours = ?h, batchSize = ?n,
                       includeInactive = toBoolean (orDefault (JBool False) (includeInactiveField body)),
                       enabled = True\<rparr> \<and>
               intervalHours (settings (sched w')) = ?h \<and> batchSize (settings (sched w')) = ?n \<and>
               (intervalHours (settings (sched w')) = NaN \<or> batchSize (settings (sched w')) = NaN)"
      by (intro exI[of _ w']) simp
  qed
  have f: "dbFailure w = None \<and> passesRange 1 12 ?h \<and> passesRange 5 100 ?n \<and> outlivesRestart body w \<longrightarrow>
            (\<exists>nextRun upcomingSchedules w'.
               updateSettingsRoute now body w =
                 Some (Response 200 (UpdatedBody ?m nextRun upcomingSchedules), w') \<and>
               schedulerState w' = Some ?m \<and> settings (sched w') = ?m \<and>
               (intervalHours (settings (sched w')) = NaN \<or> batchSize (settings (sched w')) = NaN))"
  proof
    assume h: "dbFailure w = None \<and> passesRange 1 12 ?h \<and> passesRange 5 100 ?n \<and> outlivesRestart body w"
    then have h1: "dbFailure w = None" and h2: "passesRange 1 12 ?h" and h3: "passesRange 5 100 ?n"
      and h4: "outlivesRestart body w" by simp_all
    have c1: "case intervalHoursField body of None \<Rightarrow> True | Some v \<Rightarrow> passesRange 1 12 (parseInt v)"
      using h2 by (cases "intervalHoursField body") (simp_all add: orDefault_def)
    have c2: "case batchSizeField body of None \<Rightarrow> True | Some v \<Rightarrow> passesRange 5 100 (parseInt v)"
      using h3 by (cases "batchSizeField body") (simp_all add: orDefault_def)
    have n: "intervalHours ?m = NaN \<or> batchSize ?m = NaN"
    proof -
      from nan show ?thesis
      proof
        assume "parsesToNaN (intervalHoursField body)"
        then obtain v where "intervalHoursField body = Some v" "parseInt v = NaN"
          by (cases "intervalHoursField body") (simp_all add: parsesToNaN_def)
        then show ?thesis by (simp add: mergeSettings_def requestedUpdate_def)
      next
        assume "parsesToNaN (batchSizeField body)"
        then obtain v where "batchSizeField body = Some v" "parseInt v = NaN"
          by (cases "batchSizeField body") (simp_all add: parsesToNaN_def)
        then show ?thesis by (simp add: mergeSettings_def requestedUpdate_def)
      qed
    qed
    from update_route_accepts[OF h1 c1 c2 h4, of now] obtain nextRun upcomingSchedules w' where
      "updateSettingsRoute now body w =
         Some (Response 200 (UpdatedBody ?m nextRun upcomingSchedules), w')"
      "schedulerState w' = Some ?m" "settings (sched w') = ?m"
      by blast
    with n show "\<exists>nextRun upcomingSchedules w'.
               updateSettingsRoute now body w =
                 Some (Response 200 (UpdatedBody ?m nextRun upcomingSchedules), w') \<and>
               schedulerState w' = Some ?m \<and> settings (sched w') = ?m \<and>
               (intervalHours (settings (sched w')) = NaN \<or> batchSize (settings (sched w')) = NaN)"
      by (intro exI[of _ nextRun] exI[of _ upcomingSchedules] exI[of _ w']) simp
  qed
  show ?thesis
    by (intro conjI; (rule a b c d e f))
qed

lemma nanBody_parses:
  "parseInt (orDefault (JNum (units ''4'')) (intervalHoursField nanBody)) = NaN"
  "parseInt (orDefault (JNum (units ''10'')) (batchSizeField nanBody)) = Num 75"
  "toBoolean (orDefault (JBool False) (includeInactiveField nanBody)) = False"
  by code_simp+

lemma nanSizeBody_parses:
  "parseInt (orDefault (JNum (units ''4'')) (intervalHoursField nanSizeBody)) = Num 6"
  "parseInt (orDefault (JNum (units ''10'')) (batchSizeField nanSizeBody)) = NaN"
  by code_simp+

lemma nanSizeBody_merged:
  "mergeSettings (settings (sched enabledWorld)) (requestedUpdate nanSizeBody) =
     \<lparr>intervalHours = Num 6, batchSize = NaN, includeInactive = False, enabled = True\<rparr>"
  by code_simp

theorem nan_passes_range_checks_witness:
  "(\<exists>w'. startSchedulerRoute noon nanBody idleWorld =
            Some (Response 200 (StartedBody (settings (sched w')) None []), w') \<and>
          schedulerState w' =
            Some \<lparr>intervalHours = NaN, batchSize = Num 75, includeInactive = False,
                  enabled = True\<rparr> \<and>
          intervalHours (settings (sched w')) = NaN) \<and>
   (\<exists>nextRun upcomingSchedules w'.
      updateSettingsRoute noon nanSizeBody enabledWorld =
        Some (Response 200
                (UpdatedBody \<lparr>intervalHours = Num 6, batchSize = NaN, includeInactive = False,
                               enabled = True\<rparr> nextRun upcomingSchedules), w') \<and>
      schedulerState w' =
        Some \<lparr>intervalHours = Num 6, batchSize = NaN, includeInactive = False, enabled = True\<rparr> \<and>
      batchSize (settings (sched w')) = NaN)"
proof -
  have n1: "parsesToNaN (intervalHoursField nanBody) \<or> parsesToNaN (batchSizeField nanBody)"
    using nanBody_parses by (simp add: parsesToNaN_hours)
  have d1: "dbFailure idleWorld = None" by (simp add: idleWorld_def)
  have e1: "\<not> alreadyEnabled idleWorld"
    by (simp add: alreadyEnabled_def getSchedulerState_def idleWorld_def defaultSettings_def)
  have p1: "passesRange 1 12 (parseInt (orDefault (JNum (units ''4'')) (intervalHoursField nanBody)))"
    "passesRange 5 100 (parseInt (orDefault (JNum (units ''10'')) (batchSizeField nanBody)))"
    unfolding nanBody_parses by (simp_all add: passesRange_def)
  from nan_passes_range_checks[OF n1, where now = noon and w = idleWorld] d1 e1 p1
  have s: "\<exists>w'. startSchedulerRoute noon nanBody idleWorld =
                  Some (Response 200 (StartedBody (settings (sched w')) None []), w') \<and>
                schedulerState w' =
                  Some \<lparr>intervalHours = NaN, batchSize = Num 75, includeInactive = False,
                        enabled = True\<rparr> \<and>
                intervalHours (settings (sched w')) = NaN"
    unfolding nanBody_parses by blast
  have n2: "parsesToNaN (intervalHoursField nanSizeBody) \<or> parsesToNaN (batchSizeField nanSizeBody)"
    using nanSizeBody_parses by (simp add: parsesToNaN_size)
  have d2: "dbFailure enabledWorld = None" by (simp add: enabledWorld_def idleWorld_def)
  have o2: "outlivesRestart nanSizeBody enabledWorld"
    by (simp add: outlivesRestart_def enabledWorld_def idleWorld_def)
  have p2: "passesRange 1 12 (parseInt (orDefault (JNum (units ''4'')) (intervalHoursField nanSizeBody)))"
    "passesRange 5 100 (parseInt (orDefault (JNum (units ''10'')) (batchSizeField nanSizeBody)))"
    unfolding nanSizeBody_parses by (simp_all add: passesRange_def)
  from nan_passes_range_checks[OF n2, where now = noon and w = enabledWorld] d2 o2 p2
  obtain nextRun upcomingSchedules w' where
    r: "updateSettingsRoute noon nanSizeBody enabledWorld =
          Some (Response 200
                  (UpdatedBody (mergeSettings (settings (sched enabledWorld)) (requestedUpdate nanSizeBody))
                     nextRun upcomingSchedules), w')"
    and p: "schedulerState w' =
              Some (mergeSettings (settings (sched enabledWorld)) (requestedUpdate nanSizeBody))"
    and m: "settings (sched w') =
              mergeSettings (settings (sched enabledWorld)) (requestedUpdate nanSizeBody)"
    by blast
  have u: "\<exists>nextRun upcomingSchedules w'.
      updateSettingsRoute noon nanSizeBody enabledWorld =
        Some (Response 200
                (UpdatedBody \<lparr>intervalHours = Num 6, batchSize = NaN, includeInactive = False,
                               enabled = True\<rparr> nextRun upcomingSchedules), w') \<and>
      schedulerState w' =
        Some \<lparr>intervalHours = Num 6, batchSize = NaN, includeInactive = False, enabled = True\<rparr> \<and>
      batchSize (settings (sched w')) = NaN"
    using r p m unfolding nanSizeBody_merged
    by (intro exI[of _ nextRun] exI[of _ upcomingSchedules] exI[of _ w']) simp
  from s u show ?thesis by (rule conjI)
qed

subsection \<open>One job at a time\<close>

text \<open>A timer fire while the current job is running only emits \<open>jobSkipped\<close>.\<close>

lemma cronCallback_skips:
  assumes "currentJob (sched w) = Some j" and "status j = Running"
  shows "cronCallback jid up w = emitS (JobSkipped ''Previous job still running'') w"
  using assms by (simp add: cronCallback_def)

text \<open>The listener attached for a run leaves the engine's own event log alone.\<close>

lemma fold_onBatchCompleted_engineEvents:
  "engineEvents (fold (onBatchCompleted jid bsize scheduled) evs w) = engineEvents w"
proof (induction evs arbitrary: w)
  case Nil
  then show ?case by simp
next
  case (Cons x xs)
  have "engineEvents (onBatchCompleted jid bsize scheduled x w) = engineEvents w"
    by (cases x) (simp add: onBatchCompleted_def writeJob_def emitS_def split: event.splits option.splits)
  then show ?case using Cons by simp
qed

lemma writeJob_keeps:
  "engineEvents (writeJob jw w) = engineEvents w"
  "payment (writeJob jw w) = payment w"
  by (simp_all add: writeJob_def split: option.splits)

lemma emitS_keeps:
  "engineEvents (emitS e w) = engineEvents w"
  "payment (emitS e w) = payment w"
  by (simp_all add: emitS_def)

text \<open>\<open>executeManualJob\<close> calls the engine whatever \<open>currentJob\<close> holds: with clients to
  process and the database reachable, the engine's events of the new run are appended.\<close>

lemma executeManualJob_runs_engine:
  assumes "dbFailure w = None"
    and "clientRows w (includeInactive (mergeSettings (settings (sched w)) upd)) \<noteq> []"
  shows "engineEvents (snd (executeManualJob jid up upd w)) =
           engineEvents w @
             fst (snd (processClients up
                         (clientRows w (includeInactive (mergeSettings (settings (sched w)) upd)))
                         (batchSize (mergeSettings (settings (sched w)) upd)) jid (payment w)))"
  using assms
  by (simp add: executeManualJob_def getClients_def runEngine_def writeJob_keeps emitS_keeps
      fold_onBatchCompleted_engineEvents Let_def case_prod_beta)

text \<open>
  Claim C1 does not hold of the code. In a state whose current job \<open>job-1\<close> is running,
  a timer fire only emits \<open>jobSkipped\<close> and leaves the engine alone, as the claim says;
  but a manual run is accepted with status 200 and runs the engine for a second job
  \<open>job-2\<close>, and when it ends \<open>currentJob\<close> is cleared although \<open>job-1\<close> is still
  registered as running.
\<close>

theorem manual_run_while_job_active:
  "(case currentJob (sched busyWorld) of None \<Rightarrow> False | Some j \<Rightarrow> status j = Running) \<and>
   schedEvents (cronCallback ''job-2'' acceptingUpstream busyWorld) =
     [JobSkipped ''Previous job still running''] \<and>
   engineEvents (cronCallback ''job-2'' acceptingUpstream busyWorld) = [] \<and>
   fst (runManualJobRoute ''job-2'' acceptingUpstream manualBody busyWorld) =
     Response 200 ManualStartedBody \<and>
   map (\<lambda>x. ev_jobId (fst x))
       (engineEvents (snd (runManualJobRoute ''job-2'' acceptingUpstream manualBody busyWorld))) =
     [''job-2'', ''job-2'', ''job-2'', ''job-2''] \<and>
   batchesStarted (engineEvents (snd (runManualJobRoute ''job-2'' acceptingUpstream manualBody busyWorld))) = 1 \<and>
   currentJob (sched (snd (runManualJobRoute ''job-2'' acceptingUpstream manualBody busyWorld))) = None \<and>
   map fst (runningJobs (sched (snd (runManualJobRoute ''job-2'' acceptingUpstream manualBody busyWorld)))) =
     [''job-1'']"
  by code_simp

end
